theory Spec2Isabelle
  imports Main "HOL-Library.Char_ord" "HOL-Library.List_Lexorder"
begin

section \<open>SortEX: sorting media files into dated folders\<close>

text \<open>
  A shallow embedding of \<^verbatim>\<open>src/sortex_main.py\<close>: the date resolver
  (\<^verbatim>\<open>parse_exif_datetime\<close>, \<^verbatim>\<open>get_image_datetime\<close>), the path planner
  (\<^verbatim>\<open>build_target_dirname\<close>, \<^verbatim>\<open>ensure_unique_path\<close>), the grouper
  (\<^verbatim>\<open>_pair_live_photos\<close>) and the relocation loop of \<^verbatim>\<open>_worker\<close>.
  The Tk widgets, the progress bar and the worker thread are presentation and are left
  out; the log queue is the list of lines put on it.
\<close>

subsection \<open>Strings\<close>

text \<open>
  Python strings are modelled as \<open>string\<close>, one \<open>char\<close> per code point (code points
  up to 255). \<^verbatim>\<open>str.lower\<close> is modelled on the ASCII letters, the only ones that can
  produce one of the extensions the program knows.
\<close>

definition lower_char :: "char \<Rightarrow> char" where
  "lower_char c =
     (case map_of (zip ''ABCDEFGHIJKLMNOPQRSTUVWXYZ'' ''abcdefghijklmnopqrstuvwxyz'') c of
        Some l \<Rightarrow> l
      | None \<Rightarrow> c)"

definition lower :: "string \<Rightarrow> string" where
  "lower s = map lower_char s"

definition digits :: string where
  "digits = ''0123456789''"

text \<open>The decimal text of a non-negative integer: \<^verbatim>\<open>f"{i}"\<close>.\<close>

fun str_nat :: "nat \<Rightarrow> string" where
  "str_nat n = (if n < 10 then [digits ! n] else str_nat (n div 10) @ [digits ! (n mod 10)])"

declare str_nat.simps [simp del]

text \<open>\<^verbatim>\<open>f"{n:02d}"\<close>: the decimal text, padded with zeros on the left to two characters.\<close>

definition fmt_02d :: "nat \<Rightarrow> string" where
  "fmt_02d n = replicate (2 - length (str_nat n)) (CHR ''0'') @ str_nat n"

text \<open>\<^verbatim>\<open>s.rfind(c)\<close>: the index of the last occurrence, or -1. The third argument is the
  index of the head of the list.\<close>

primrec rfind_from :: "char \<Rightarrow> string \<Rightarrow> nat \<Rightarrow> int" where
  "rfind_from c [] k = - 1"
| "rfind_from c (x # xs) k =
     (let r = rfind_from c xs (Suc k) in
      if 0 \<le> r then r else if x = c then int k else - 1)"

definition rfind :: "string \<Rightarrow> char \<Rightarrow> int" where
  "rfind s c = rfind_from c s 0"

subsection \<open>Paths (pathlib, POSIX flavour)\<close>

text \<open>
  A \<^verbatim>\<open>Path\<close> is its anchor (\<^verbatim>\<open>"/"\<close> or empty) and the list of its components. A
  component is a non-empty string without a separator.
\<close>

datatype path = Path (anchor: string) (tail: "string list")

definition name :: "path \<Rightarrow> string" where
  "name p = (if tail p = [] then [] else last (tail p))"

definition parent :: "path \<Rightarrow> path" where
  "parent p = (if tail p = [] then p else Path (anchor p) (butlast (tail p)))"

text \<open>\<^verbatim>\<open>PurePath.suffix\<close> and \<^verbatim>\<open>PurePath.stem\<close>: the name is cut at its last dot,
  unless that dot is the first or the last character of the name.\<close>

definition suffix :: "path \<Rightarrow> string" where
  "suffix p =
     (let n = name p; i = rfind n (CHR ''.'') in
      if 0 < i \<and> i < int (length n) - 1 then drop (nat i) n else [])"

definition stem :: "path \<Rightarrow> string" where
  "stem p =
     (let n = name p; i = rfind n (CHR ''.'') in
      if 0 < i \<and> i < int (length n) - 1 then take (nat i) n else n)"

text \<open>\<^verbatim>\<open>p / s\<close> for a single component \<open>s\<close>; joining the empty string gives \<open>p\<close>.\<close>

definition join :: "path \<Rightarrow> string \<Rightarrow> path" where
  "join p s = (if s = [] then p else Path (anchor p) (tail p @ [s]))"

text \<open>Paths are ordered as the lists of their parts are.\<close>

definition path_key :: "path \<Rightarrow> string list" where
  "path_key p = anchor p # tail p"

definition sorted_paths :: "path list \<Rightarrow> path list" where
  "sorted_paths ps = sort_key path_key ps"

primrec intercalate :: "string \<Rightarrow> string list \<Rightarrow> string" where
  "intercalate sep [] = []"
| "intercalate sep (x # xs) = (if xs = [] then x else x @ sep @ intercalate sep xs)"

text \<open>\<^verbatim>\<open>str(p)\<close>.\<close>

definition str_path :: "path \<Rightarrow> string" where
  "str_path p =
     (if anchor p = [] \<and> tail p = [] then ''.'' else anchor p @ intercalate ''/'' (tail p))"

subsection \<open>Errors\<close>

datatype error =
    FileNotFoundError
  | FileExistsError
  | NotADirectoryError
  | PermissionError
  | ValueError
  | OtherError string

text \<open>\<^verbatim>\<open>f"{e!r}"\<close>: the text of an exception in an error line.\<close>

fun repr_error :: "error \<Rightarrow> string" where
  "repr_error FileNotFoundError = ''FileNotFoundError()''"
| "repr_error FileExistsError = ''FileExistsError()''"
| "repr_error NotADirectoryError = ''NotADirectoryError()''"
| "repr_error PermissionError = ''PermissionError()''"
| "repr_error ValueError = ''ValueError()''"
| "repr_error (OtherError s) = s"

text \<open>\<^verbatim>\<open>p.relative_to(src)\<close> raises ValueError when \<open>p\<close> is not under \<open>src\<close>.\<close>

definition relative_to :: "path \<Rightarrow> path \<Rightarrow> error + path" where
  "relative_to p src =
     (if anchor p = anchor src \<and> take (length (tail src)) (tail p) = tail src
      then Inr (Path [] (drop (length (tail src)) (tail p)))
      else Inl ValueError)"

subsection \<open>File kinds\<close>

definition IMAGE_EXTS :: "string list" where
  "IMAGE_EXTS = [''.jpg'', ''.jpeg'', ''.png'', ''.tif'', ''.tiff'', ''.heic'', ''.heif'', ''.webp'']"

definition VIDEO_EXTS :: "string list" where
  "VIDEO_EXTS = [''.mov'', ''.mp4'', ''.avi'', ''.mpeg'']"

definition IGNORE_EXTS :: "string list" where
  "IGNORE_EXTS = [''.aae'']"

definition is_image_file :: "path \<Rightarrow> bool" where
  "is_image_file p = (lower (suffix p) \<in> set IMAGE_EXTS)"

definition is_video_file :: "path \<Rightarrow> bool" where
  "is_video_file p = (lower (suffix p) \<in> set VIDEO_EXTS)"

definition is_media_file :: "path \<Rightarrow> bool" where
  "is_media_file p = (let ext = lower (suffix p) in ext \<in> set IMAGE_EXTS \<or> ext \<in> set VIDEO_EXTS)"

subsection \<open>Timestamps and \<^verbatim>\<open>datetime.strptime\<close>\<close>

record datetime =
  year :: nat
  month :: nat
  day :: nat
  hour :: nat
  minute :: nat
  second :: nat

definition is_leap :: "nat \<Rightarrow> bool" where
  "is_leap y = (y mod 4 = 0 \<and> (y mod 100 \<noteq> 0 \<or> y mod 400 = 0))"

definition days_in_month :: "nat \<Rightarrow> nat \<Rightarrow> nat" where
  "days_in_month y m =
     (if m = 2 then (if is_leap y then 29 else 28)
      else if m \<in> set [4, 6, 9, 11] then 30 else 31)"

text \<open>The constructor \<^verbatim>\<open>datetime(y, m, d, H, M, S)\<close> raises ValueError outside these
  ranges; \<open>None\<close> is that exception.\<close>

definition make_datetime :: "nat \<Rightarrow> nat \<Rightarrow> nat \<Rightarrow> nat \<Rightarrow> nat \<Rightarrow> nat \<Rightarrow> datetime option" where
  "make_datetime y m d H M S =
     (if 1 \<le> y \<and> y \<le> 9999 \<and> 1 \<le> m \<and> m \<le> 12 \<and> 1 \<le> d \<and> d \<le> days_in_month y m
         \<and> H \<le> 23 \<and> M \<le> 59 \<and> S \<le> 59
      then Some \<lparr>year = y, month = m, day = d, hour = H, minute = M, second = S\<rparr>
      else None)"

text \<open>
  \<^verbatim>\<open>strptime\<close> turns the format into a regular expression and matches it at the start
  of the text. Each directive is an alternation of fixed-length alternatives, tried in
  order; an alternative is a list of character classes, a class the string of its
  characters:
  \<^verbatim>\<open>%Y = \d\d\d\d\<close>, \<^verbatim>\<open>%m = 1[0-2]|0[1-9]|[1-9]\<close>,
  \<^verbatim>\<open>%d = 3[0-1]|[1-2]\d|0[1-9]|[1-9]| [1-9]\<close>, \<^verbatim>\<open>%H = 2[0-3]|[0-1]\d|\d\<close>,
  \<^verbatim>\<open>%M = [0-5]\d|\d\<close>, \<^verbatim>\<open>%S = 6[0-1]|[0-5]\d|\d\<close>.
\<close>

definition directive_alts :: "char \<Rightarrow> string list list" where
  "directive_alts c =
     (if c = CHR ''Y'' then [[digits, digits, digits, digits]]
      else if c = CHR ''m'' then [[''1'', ''012''], [''0'', ''123456789''], [''123456789'']]
      else if c = CHR ''d'' then
        [[''3'', ''01''], [''12'', digits], [''0'', ''123456789''], [''123456789''],
         ['' '', ''123456789'']]
      else if c = CHR ''H'' then [[''2'', ''0123''], [''01'', digits], [digits]]
      else if c = CHR ''M'' then [[''012345'', digits], [digits]]
      else if c = CHR ''S'' then [[''6'', ''01''], [''012345'', digits], [digits]]
      else [])"

text \<open>One alternative against the start of the text: the matched text and the rest.\<close>

primrec match_classes :: "string list \<Rightarrow> string \<Rightarrow> (string \<times> string) option" where
  "match_classes [] s = Some ([], s)"
| "match_classes (cl # cls) s =
     (case s of
        [] \<Rightarrow> None
      | c # s' \<Rightarrow>
          if c \<in> set cl then
            (case match_classes cls s' of
               None \<Rightarrow> None
             | Some (m, r) \<Rightarrow> Some (c # m, r))
          else None)"

text \<open>The characters \<^verbatim>\<open>\s\<close> matches: tab, line feed, vertical tab, form feed, carriage
  return, the separators 0x1c to 0x1f, space, next line and no-break space.\<close>

definition is_space :: "char \<Rightarrow> bool" where
  "is_space c =
     (c \<in> set [CHR 0x09, CHR 0x0A, CHR 0x0B, CHR 0x0C, CHR 0x0D, CHR 0x1C, CHR 0x1D, CHR 0x1E,
               CHR 0x1F, CHR 0x20, CHR 0x85, CHR 0xA0])"

text \<open>
  All the matches of a format at the start of a text, in the order a backtracking matcher
  finds them: the groups matched and the rest of the text. A run of white space in the
  format is \<^verbatim>\<open>\s+\<close> (greedy); any other character stands for itself.
\<close>

function matches :: "string \<Rightarrow> string \<Rightarrow> (char \<times> string) list \<Rightarrow> ((char \<times> string) list \<times> string) list" where
  "matches [] s g = [(g, s)]"
| "matches (f # fs) s g =
     (if f = CHR ''%'' then
        (case fs of
           [] \<Rightarrow> []
         | d # fs' \<Rightarrow>
             concat (map (\<lambda>alt.
               case match_classes alt s of
                 None \<Rightarrow> []
               | Some (m, r) \<Rightarrow> matches fs' r (g @ [(d, m)])) (directive_alts d)))
      else if is_space f then
        concat (map (\<lambda>k. matches (dropWhile is_space fs) (drop k s) g)
          (rev [1 ..< Suc (length (takeWhile is_space s))]))
      else
        (case s of
           [] \<Rightarrow> []
         | c # s' \<Rightarrow> if c = f then matches fs s' g else []))"
  by pat_completeness auto
termination
  by (relation "measure (\<lambda>(f, s, g). length f)")
     (auto simp: less_Suc_eq_le length_dropWhile_le)

text \<open>\<^verbatim>\<open>int(text)\<close> on decimal digits.\<close>

definition digit_val :: "char \<Rightarrow> nat" where
  "digit_val c = (case map_of (zip digits [0 ..< 10]) c of Some v \<Rightarrow> v | None \<Rightarrow> 0)"

definition int_of_digits :: "string \<Rightarrow> nat" where
  "int_of_digits s = foldl (\<lambda>acc c. 10 * acc + digit_val c) 0 (filter (\<lambda>c. c \<in> set digits) s)"

definition group_val :: "(char \<times> string) list \<Rightarrow> char \<Rightarrow> nat \<Rightarrow> nat" where
  "group_val g d dflt = (case map_of g d of None \<Rightarrow> dflt | Some m \<Rightarrow> int_of_digits m)"

text \<open>
  \<^verbatim>\<open>datetime.strptime(text, fmt)\<close>; \<open>None\<close> is ValueError: no match, unconverted data
  after the match, or a date that does not exist.
\<close>

definition strptime :: "string \<Rightarrow> string \<Rightarrow> datetime option" where
  "strptime s fmt =
     (case matches fmt s [] of
        [] \<Rightarrow> None
      | (g, rest) # _ \<Rightarrow>
          if rest \<noteq> [] then None
          else make_datetime (group_val g (CHR ''Y'') 1900) (group_val g (CHR ''m'') 1)
                 (group_val g (CHR ''d'') 1) (group_val g (CHR ''H'') 0)
                 (group_val g (CHR ''M'') 0) (group_val g (CHR ''S'') 0))"

subsection \<open>The date resolver\<close>

definition EXIF_DATETIME_CANDIDATES :: "string list" where
  "EXIF_DATETIME_CANDIDATES = [''DateTimeOriginal'', ''CreateDate'', ''DateTimeDigitized'', ''DateTime'']"

definition fmts :: "string list" where
  "fmts = [''%Y:%m:%d %H:%M:%S'', ''%Y:%m:%d %H:%M'', ''%Y-%m-%d %H:%M:%S'',
           ''%Y-%m-%d %H:%M'', ''%Y/%m/%d %H:%M:%S'', ''%Y/%m/%d %H:%M'']"

text \<open>The loop of \<^verbatim>\<open>parse_exif_datetime\<close> over the formats: the first format that
  parses wins, an exception of \<^verbatim>\<open>strptime\<close> moves on to the next.\<close>

primrec try_fmts :: "string \<Rightarrow> string list \<Rightarrow> datetime option" where
  "try_fmts v [] = None"
| "try_fmts v (fmt # rest) =
     (case strptime v fmt of
        Some dt \<Rightarrow> Some dt
      | None \<Rightarrow> try_fmts v rest)"

definition parse_exif_datetime :: "string \<Rightarrow> datetime option" where
  "parse_exif_datetime v = (if v = [] then None else try_fmts v fmts)"

subsection \<open>The file system\<close>

text \<open>
  The state of the file system is a map from paths to entries. A regular file carries
  what the program reads of it: \<open>f_mtime\<close> is
  \<^verbatim>\<open>datetime.fromtimestamp(path.stat().st_mtime)\<close>, \<open>f_exif\<close> is the dictionary
  \<^verbatim>\<open>_exif_dict_from_image\<close> builds from the opened image (tag name to value), and
  \<open>f_locked\<close> is the exception \<^verbatim>\<open>shutil.copy2\<close> or \<^verbatim>\<open>shutil.move\<close> raises on the
  file, if any. \<open>Inl\<close> is the exception the read raises.
\<close>

datatype node =
    Dir
  | File (f_mtime: "error + datetime") (f_exif: "error + (string \<rightharpoonup> string)")
         (f_locked: "error option")

type_synonym filesys = "path \<rightharpoonup> node"

definition path_exists :: "filesys \<Rightarrow> path \<Rightarrow> bool" where
  "path_exists fs p = (case fs p of None \<Rightarrow> False | Some n \<Rightarrow> True)"

definition is_dir :: "filesys \<Rightarrow> path \<Rightarrow> bool" where
  "is_dir fs p = (case fs p of Some Dir \<Rightarrow> True | _ \<Rightarrow> False)"

definition is_file :: "filesys \<Rightarrow> path \<Rightarrow> bool" where
  "is_file fs p = (case fs p of Some (File m x l) \<Rightarrow> True | _ \<Rightarrow> False)"

text \<open>\<^verbatim>\<open>datetime.fromtimestamp(path.stat().st_mtime)\<close>, for a regular file.\<close>

definition stat_mtime :: "filesys \<Rightarrow> path \<Rightarrow> error + datetime" where
  "stat_mtime fs p = (case fs p of Some (File m x l) \<Rightarrow> m | _ \<Rightarrow> Inl FileNotFoundError)"

text \<open>\<^verbatim>\<open>Image.open(path)\<close> followed by \<^verbatim>\<open>_exif_dict_from_image\<close>.\<close>

definition image_exif :: "filesys \<Rightarrow> path \<Rightarrow> error + (string \<rightharpoonup> string)" where
  "image_exif fs p = (case fs p of Some (File m x l) \<Rightarrow> x | _ \<Rightarrow> Inl FileNotFoundError)"

text \<open>\<^verbatim>\<open>os.mkdir\<close>: the path must be free and its parent a directory.\<close>

definition os_mkdir :: "filesys \<Rightarrow> path \<Rightarrow> error + filesys" where
  "os_mkdir fs d =
     (if path_exists fs d then Inl FileExistsError
      else case fs (parent d) of
             None \<Rightarrow> Inl FileNotFoundError
           | Some Dir \<Rightarrow> Inr (fs(d \<mapsto> Dir))
           | Some (File m x l) \<Rightarrow> Inl NotADirectoryError)"

text \<open>\<^verbatim>\<open>Path.mkdir(parents=False, exist_ok=True)\<close>: FileNotFoundError is raised again,
  any other error is dropped when the path is a directory.\<close>

definition mkdir_exist_ok :: "filesys \<Rightarrow> path \<Rightarrow> error + filesys" where
  "mkdir_exist_ok fs d =
     (case os_mkdir fs d of
        Inr fs' \<Rightarrow> Inr fs'
      | Inl e \<Rightarrow> if e \<noteq> FileNotFoundError \<and> is_dir fs d then Inr fs else Inl e)"

text \<open>\<^verbatim>\<open>Path.mkdir(parents=True, exist_ok=True)\<close>: on FileNotFoundError the parent is
  made first, in the same way, and the directory itself after it.\<close>

function mkdir_parents :: "filesys \<Rightarrow> path \<Rightarrow> error + filesys" where
  "mkdir_parents fs d =
     (case os_mkdir fs d of
        Inr fs' \<Rightarrow> Inr fs'
      | Inl e \<Rightarrow>
          if e = FileNotFoundError then
            (if parent d = d then Inl e
             else case mkdir_parents fs (parent d) of
                    Inl e' \<Rightarrow> Inl e'
                  | Inr fs1 \<Rightarrow> mkdir_exist_ok fs1 d)
          else if is_dir fs d then Inr fs else Inl e)"
  by pat_completeness auto
termination
  by (relation "measure (\<lambda>(fs, d). length (tail d))")
     (auto simp: parent_def split: if_splits)

declare mkdir_parents.simps [simp del]

text \<open>\<^verbatim>\<open>shutil.copy2(src, dst)\<close> on a free destination: the file and its metadata.\<close>

definition copy2 :: "filesys \<Rightarrow> path \<Rightarrow> path \<Rightarrow> error + filesys" where
  "copy2 fs p dst =
     (case fs p of
        None \<Rightarrow> Inl FileNotFoundError
      | Some Dir \<Rightarrow> Inl (OtherError ''IsADirectoryError()'')
      | Some (File m x l) \<Rightarrow>
          (case l of
             Some e \<Rightarrow> Inl e
           | None \<Rightarrow> Inr (fs(dst \<mapsto> File m x l))))"

text \<open>\<^verbatim>\<open>shutil.move(src, dst)\<close> on a free destination. The program moves regular
  files only; what lies below a moved directory is not followed.\<close>

definition move :: "filesys \<Rightarrow> path \<Rightarrow> path \<Rightarrow> error + filesys" where
  "move fs p dst =
     (case fs p of
        None \<Rightarrow> Inl FileNotFoundError
      | Some Dir \<Rightarrow> Inr ((fs(p := None))(dst \<mapsto> Dir))
      | Some (File m x l) \<Rightarrow>
          (case l of
             Some e \<Rightarrow> Inl e
           | None \<Rightarrow> Inr ((fs(p := None))(dst \<mapsto> File m x l))))"

subsection \<open>The date resolver\<close>

text \<open>The loop of \<^verbatim>\<open>get_image_datetime\<close> over the candidate tags: the first tag that is
  in the dictionary and whose value parses gives the date.\<close>

primrec scan_candidates :: "(string \<rightharpoonup> string) \<Rightarrow> string list \<Rightarrow> datetime option" where
  "scan_candidates exif [] = None"
| "scan_candidates exif (key # keys) =
     (case exif key of
        None \<Rightarrow> scan_candidates exif keys
      | Some v \<Rightarrow>
          (case parse_exif_datetime v of
             Some dt \<Rightarrow> Some dt
           | None \<Rightarrow> scan_candidates exif keys))"

text \<open>
  \<^verbatim>\<open>get_image_datetime\<close>: the date and its source, \<^verbatim>\<open>'exif'\<close>, \<^verbatim>\<open>'mtime'\<close> or
  \<^verbatim>\<open>None\<close>. Both \<^verbatim>\<open>try\<close> blocks catch every exception.
\<close>

definition get_image_datetime :: "filesys \<Rightarrow> path \<Rightarrow> datetime option \<times> string option" where
  "get_image_datetime fs p =
     (case (case image_exif fs p of
              Inl e \<Rightarrow> None
            | Inr exif \<Rightarrow> scan_candidates exif EXIF_DATETIME_CANDIDATES) of
        Some dt \<Rightarrow> (Some dt, Some ''exif'')
      | None \<Rightarrow>
          (case stat_mtime fs p of
             Inr ts \<Rightarrow> (Some ts, Some ''mtime'')
           | Inl e \<Rightarrow> (None, None)))"

text \<open>The date of a single, lines 339 to 346 of \<^verbatim>\<open>_worker\<close>: an image goes through
  \<^verbatim>\<open>get_image_datetime\<close>, any other file has its modification time read.\<close>

definition single_datetime :: "filesys \<Rightarrow> path \<Rightarrow> datetime option \<times> string option" where
  "single_datetime fs p =
     (if is_image_file p then get_image_datetime fs p
      else case stat_mtime fs p of
             Inr ts \<Rightarrow> (Some ts, Some ''mtime'')
           | Inl e \<Rightarrow> (None, None))"

subsection \<open>The path planner\<close>

definition UNKNOWN_DIR_NAME :: string where
  "UNKNOWN_DIR_NAME = ''unknown-date''"

definition build_target_dirname :: "datetime \<Rightarrow> string" where
  "build_target_dirname dt =
     (let mm = fmt_02d (month dt); yyyy = fmt_02d (year dt) in yyyy @ ''-'' @ mm)"

text \<open>The candidate of round \<open>i\<close>: \<^verbatim>\<open>parent / f"{stem}_{i}{suffix}"\<close>.\<close>

definition candidate :: "path \<Rightarrow> string \<Rightarrow> string \<Rightarrow> nat \<Rightarrow> path" where
  "candidate par st suf i = join par (st @ ''_'' @ str_nat i @ suf)"

text \<open>The \<^verbatim>\<open>while True\<close> loop of \<^verbatim>\<open>ensure_unique_path\<close>; \<open>None\<close> is a loop that never
  ends.\<close>

partial_function (option) unique_loop :: "filesys \<Rightarrow> path \<Rightarrow> string \<Rightarrow> string \<Rightarrow> nat \<Rightarrow> path option" where
  "unique_loop fs par st suf i =
     (if \<not> path_exists fs (candidate par st suf i) then Some (candidate par st suf i)
      else unique_loop fs par st suf (i + 1))"

declare unique_loop.simps [code]

definition ensure_unique_path :: "filesys \<Rightarrow> path \<Rightarrow> path option" where
  "ensure_unique_path fs target =
     (if \<not> path_exists fs target then Some target
      else unique_loop fs (parent target) (stem target) (suffix target) 1)"

subsection \<open>The grouper\<close>

text \<open>
  Python dictionaries keep the order in which keys were first inserted: a dictionary is
  an association list, \<open>dict_set\<close> replaces the value of a key in place or appends a
  new key at the end.
\<close>

primrec dict_set :: "('k \<times> 'v) list \<Rightarrow> 'k \<Rightarrow> 'v \<Rightarrow> ('k \<times> 'v) list" where
  "dict_set [] k v = [(k, v)]"
| "dict_set (kv # kvs) k v = (if fst kv = k then (k, v) # kvs else kv # dict_set kvs k v)"

text \<open>\<^verbatim>\<open>d.setdefault(k, [])\<close>, read.\<close>

definition dict_get_list :: "('k \<times> 'v list) list \<Rightarrow> 'k \<Rightarrow> 'v list" where
  "dict_get_list d k = (case map_of d k of None \<Rightarrow> [] | Some v \<Rightarrow> v)"

text \<open>\<^verbatim>\<open>list(dict.fromkeys(xs))\<close>: the first occurrence of each element, in order.\<close>

primrec fromkeys_from :: "'a list \<Rightarrow> 'a list \<Rightarrow> 'a list" where
  "fromkeys_from seen [] = []"
| "fromkeys_from seen (x # xs) =
     (if x \<in> set seen then fromkeys_from seen xs else x # fromkeys_from (x # seen) xs)"

definition fromkeys :: "'a list \<Rightarrow> 'a list" where
  "fromkeys xs = fromkeys_from [] xs"

type_synonym buckets = "(path \<times> (string \<times> path list) list) list"

type_synonym pairs = "(path \<times> path list) list"

text \<open>\<^verbatim>\<open>by_dir.setdefault(p.parent, {}).setdefault(p.stem, []).append(p)\<close>.\<close>

definition bucket_add :: "buckets \<Rightarrow> path \<Rightarrow> buckets" where
  "bucket_add by_dir p =
     (let stems = dict_get_list by_dir (parent p);
          items = dict_get_list stems (stem p)
      in dict_set by_dir (parent p) (dict_set stems (stem p) (items @ [p])))"

text \<open>The body of the loop over the buckets, lines 270 to 278. \<open>hd\<close> is
  \<^verbatim>\<open>sorted(images)[0]\<close> on a list that the test before it found non-empty, \<open>tl\<close> is
  \<^verbatim>\<open>images[1:]\<close>.\<close>

definition bucket_step :: "pairs \<times> path list \<Rightarrow> path list \<Rightarrow> pairs \<times> path list" where
  "bucket_step acc items =
     (case acc of (pairs, singles) \<Rightarrow>
        (let images = filter is_image_file items;
             videos = filter is_video_file items
         in if images \<noteq> [] \<and> videos \<noteq> [] then
              (let master = hd (sorted_paths images)
               in (dict_set pairs master (dict_get_list pairs master @ sorted_paths videos),
                   singles @ tl images))
            else (pairs, singles @ items)))"

definition pair_live_photos :: "path list \<Rightarrow> pairs \<times> path list" where
  "pair_live_photos files =
     (let by_dir = foldl bucket_add [] files;
          acc = foldl bucket_step ([], []) (concat (map (\<lambda>(par, stems). map snd stems) by_dir));
          pairs = fst acc;
          singles = fromkeys (snd acc);
          in_pairs = concat (map (\<lambda>(master, vids). master # vids) pairs)
      in (pairs, filter (\<lambda>p. p \<notin> set in_pairs) singles))"

subsection \<open>The relocation engine\<close>

record opts =
  dry_run :: bool
  copy_mode :: bool
  include_unknown :: bool

text \<open>The calls made to the file system, in order, so that a run that changes nothing
  can be told from one that does.\<close>

datatype fscall = Mkdir path | Copy2 path path | Move path path

record world =
  w_fs :: filesys
  w_calls :: "fscall list"
  w_log :: "string list"

definition put_log :: "world \<Rightarrow> string \<Rightarrow> world" where
  "put_log w line = w\<lparr>w_log := w_log w @ [line]\<rparr>"

definition do_call :: "fscall \<Rightarrow> (error + filesys) \<Rightarrow> world \<Rightarrow> (error + unit) \<times> world" where
  "do_call c r w =
     (case r of
        Inl e \<Rightarrow> (Inl e, w\<lparr>w_calls := w_calls w @ [c]\<rparr>)
      | Inr fs' \<Rightarrow> (Inr (), w\<lparr>w_fs := fs', w_calls := w_calls w @ [c]\<rparr>))"

text \<open>
  A step of the worker returns \<open>None\<close> when it never returns, and otherwise the value
  or the exception it leaves with, and the world as it is then.
\<close>

definition collect_files :: "filesys \<Rightarrow> path list \<Rightarrow> path list" where
  "collect_files fs listing =
     filter (\<lambda>p. is_file fs p \<and> is_media_file p \<and> lower (suffix p) \<notin> set IGNORE_EXTS) listing"

definition move_or_copy :: "opts \<Rightarrow> path \<Rightarrow> path \<Rightarrow> world \<Rightarrow> ((error + path) \<times> world) option" where
  "move_or_copy opt p target_dir w =
     (case (if \<not> dry_run opt
            then do_call (Mkdir target_dir) (mkdir_parents (w_fs w) target_dir) w
            else (Inr (), w)) of
        (Inl e, w1) \<Rightarrow> Some (Inl e, w1)
      | (Inr u, w1) \<Rightarrow>
          (let target = join target_dir (name p) in
           case ensure_unique_path (w_fs w1) target of
             None \<Rightarrow> None
           | Some final_target \<Rightarrow>
               if dry_run opt then Some (Inr final_target, w1)
               else if copy_mode opt then
                 (case do_call (Copy2 p final_target) (copy2 (w_fs w1) p final_target) w1 of
                    (Inl e, w2) \<Rightarrow> Some (Inl e, w2)
                  | (Inr u', w2) \<Rightarrow> Some (Inr final_target, w2))
               else
                 (case do_call (Move p final_target) (move (w_fs w1) p final_target) w1 of
                    (Inl e, w2) \<Rightarrow> Some (Inl e, w2)
                  | (Inr u', w2) \<Rightarrow> Some (Inr final_target, w2))))"

definition action_of :: "opts \<Rightarrow> string" where
  "action_of opt =
     (if dry_run opt then ''Would '' @ (if copy_mode opt then ''copy'' else ''move'')
      else (if copy_mode opt then ''Copied'' else ''Moved''))"

definition src_label_of :: "string option \<Rightarrow> string" where
  "src_label_of source =
     (case source of
        None \<Rightarrow> []
      | Some s \<Rightarrow> if s = [] then [] else '' ('' @ s @ '')'')"

text \<open>The line of a relocated file: \<^verbatim>\<open>f"{action}: {rel}  ->  {dirname}/{final.name}{label}"\<close>.\<close>

definition outcome_line :: "string \<Rightarrow> path \<Rightarrow> string \<Rightarrow> path \<Rightarrow> string \<Rightarrow> string" where
  "outcome_line action rel dirname final label =
     action @ '': '' @ str_path rel @ ''  ->  '' @ dirname @ ''/'' @ name final @ label"

text \<open>The loop over the videos of a pair, lines 329 to 331.\<close>

fun videos_loop :: "opts \<Rightarrow> path \<Rightarrow> string \<Rightarrow> path list \<Rightarrow> world \<Rightarrow> ((error + unit) \<times> world) option" where
  "videos_loop opt src dirname [] w = Some (Inr (), w)"
| "videos_loop opt src dirname (v # vs) w =
     (case move_or_copy opt v (join src dirname) w of
        None \<Rightarrow> None
      | Some (Inl e, w1) \<Rightarrow> Some (Inl e, w1)
      | Some (Inr final_v, w1) \<Rightarrow>
          (case relative_to v src of
             Inl e \<Rightarrow> Some (Inl e, w1)
           | Inr rel \<Rightarrow>
               videos_loop opt src dirname vs
                 (put_log w1 (outcome_line (action_of opt) rel dirname final_v '' (paired with photo)''))))"

text \<open>The body of the loop over the pairs, lines 315 to 331: no exception is caught.\<close>

definition process_pair :: "opts \<Rightarrow> path \<Rightarrow> path \<times> path list \<Rightarrow> world \<Rightarrow> ((error + unit) \<times> world) option" where
  "process_pair opt src pr w =
     (case pr of (master_img, videos) \<Rightarrow>
        (case (if is_image_file master_img then get_image_datetime (w_fs w) master_img
               else (None, None)) of
           (dt, source) \<Rightarrow>
             if dt = None \<and> \<not> include_unknown opt then
               (case relative_to master_img src of
                  Inl e \<Rightarrow> Some (Inl e, w)
                | Inr rel \<Rightarrow>
                    Some (Inr (), put_log w (''Skipping (no date found): '' @ str_path rel
                            @ '' (+ '' @ str_nat (length videos) @ '' video)'')))
             else
               (let dirname = (case dt of Some d \<Rightarrow> build_target_dirname d | None \<Rightarrow> UNKNOWN_DIR_NAME)
                in case move_or_copy opt master_img (join src dirname) w of
                     None \<Rightarrow> None
                   | Some (Inl e, w1) \<Rightarrow> Some (Inl e, w1)
                   | Some (Inr final_master, w1) \<Rightarrow>
                       (case relative_to master_img src of
                          Inl e \<Rightarrow> Some (Inl e, w1)
                        | Inr rel \<Rightarrow>
                            videos_loop opt src dirname videos
                              (put_log w1 (outcome_line (action_of opt) rel dirname final_master
                                 (src_label_of source)))))))"

fun pairs_loop :: "opts \<Rightarrow> path \<Rightarrow> pairs \<Rightarrow> world \<Rightarrow> ((error + unit) \<times> world) option" where
  "pairs_loop opt src [] w = Some (Inr (), w)"
| "pairs_loop opt src (pr # prs) w =
     (case process_pair opt src pr w of
        None \<Rightarrow> None
      | Some (Inl e, w1) \<Rightarrow> Some (Inl e, w1)
      | Some (Inr u, w1) \<Rightarrow> pairs_loop opt src prs w1)"

text \<open>The \<^verbatim>\<open>try\<close> block of the loop over the singles, lines 339 to 363. The inner
  \<open>case\<close> is the choice of the folder name; its \<open>None\<close> is the \<^verbatim>\<open>continue\<close> of
  a skipped file.\<close>

definition single_try :: "opts \<Rightarrow> path \<Rightarrow> path \<Rightarrow> path \<Rightarrow> world \<Rightarrow> ((error + unit) \<times> world) option" where
  "single_try opt src p rel w =
     (case single_datetime (w_fs w) p of
        (dt, source) \<Rightarrow>
          (case (case dt of
                   Some d \<Rightarrow> Some (build_target_dirname d)
                 | None \<Rightarrow> if \<not> include_unknown opt then None else Some UNKNOWN_DIR_NAME) of
             None \<Rightarrow> Some (Inr (), put_log w (''Skipping (no date found): '' @ str_path rel))
           | Some dirname \<Rightarrow>
               (case move_or_copy opt p (join src dirname) w of
                  None \<Rightarrow> None
                | Some (Inl e, w1) \<Rightarrow> Some (Inl e, w1)
                | Some (Inr final_target, w1) \<Rightarrow>
                    Some (Inr (), put_log w1 (outcome_line (action_of opt) rel dirname final_target
                            (src_label_of source))))))"

text \<open>The body of the loop over the singles, lines 337 to 366: \<^verbatim>\<open>relative_to\<close> is
  called before the \<^verbatim>\<open>try\<close>, every exception of the block is logged.\<close>

definition process_single :: "opts \<Rightarrow> path \<Rightarrow> path \<Rightarrow> world \<Rightarrow> ((error + unit) \<times> world) option" where
  "process_single opt src p w =
     (case relative_to p src of
        Inl e \<Rightarrow> Some (Inl e, w)
      | Inr rel \<Rightarrow>
          (case single_try opt src p rel w of
             None \<Rightarrow> None
           | Some (Inl e, w1) \<Rightarrow>
               Some (Inr (), put_log w1 (''Error with '' @ str_path rel @ '': '' @ repr_error e))
           | Some (Inr u, w1) \<Rightarrow> Some (Inr (), w1)))"

fun singles_loop :: "opts \<Rightarrow> path \<Rightarrow> path list \<Rightarrow> world \<Rightarrow> ((error + unit) \<times> world) option" where
  "singles_loop opt src [] w = Some (Inr (), w)"
| "singles_loop opt src (p # ps) w =
     (case process_single opt src p w of
        None \<Rightarrow> None
      | Some (Inl e, w1) \<Rightarrow> Some (Inl e, w1)
      | Some (Inr u, w1) \<Rightarrow> singles_loop opt src ps w1)"

text \<open>\<^verbatim>\<open>_worker\<close>. \<open>listing\<close> is what the walk of the source folder yields, in its
  order; \<open>Inl e\<close> is the exception that ends the thread.\<close>

definition worker :: "opts \<Rightarrow> path \<Rightarrow> path list \<Rightarrow> world \<Rightarrow> ((error + unit) \<times> world) option" where
  "worker opt src listing w =
     (let files = collect_files (w_fs w) listing in
      if length files = 0 then Some (Inr (), put_log w ''Found no media.'')
      else
        (case pair_live_photos files of
           (pairs, singles) \<Rightarrow>
             (case pairs_loop opt src pairs w of
                None \<Rightarrow> None
              | Some (Inl e, w1) \<Rightarrow> Some (Inl e, w1)
              | Some (Inr u, w1) \<Rightarrow>
                  (case singles_loop opt src singles w1 of
                     None \<Rightarrow> None
                   | Some (Inl e, w2) \<Rightarrow> Some (Inl e, w2)
                   | Some (Inr u', w2) \<Rightarrow> Some (Inr (), put_log w2 ''Done!'')))))"

subsection \<open>Concrete inputs\<close>

definition stamp :: datetime where
  "stamp = \<lparr>year = 2020, month = 1, day = 5, hour = 10, minute = 0, second = 0\<rparr>"

text \<open>A readable file without metadata, modified in January 2020.\<close>

definition plain_file :: node where
  "plain_file = File (Inr stamp) (Inr Map.empty) None"

definition root :: path where
  "root = Path ''/'' []"

definition photos :: path where
  "photos = Path ''/'' [''photos'']"

text \<open>A folder in which \<^verbatim>\<open>x.jpg\<close> and \<^verbatim>\<open>x_1.jpg\<close> are taken.\<close>

definition taken_fs :: filesys where
  "taken_fs =
     [root \<mapsto> Dir, photos \<mapsto> Dir, Path ''/'' [''photos'', ''2020-01''] \<mapsto> Dir,
      Path ''/'' [''photos'', ''2020-01'', ''x.jpg''] \<mapsto> plain_file,
      Path ''/'' [''photos'', ''2020-01'', ''x_1.jpg''] \<mapsto> plain_file]"

text \<open>An image whose first tag does not parse and whose last tag does, and files beside it.\<close>

definition tagged_file :: node where
  "tagged_file =
     File (Inr stamp)
       (Inr [''DateTimeOriginal'' \<mapsto> ''0000:00:00 00:00:00'', ''DateTime'' \<mapsto> ''2021-03-04 10:11''])
       None"

definition tagged_fs :: filesys where
  "tagged_fs = [root \<mapsto> Dir, photos \<mapsto> Dir, Path ''/'' [''photos'', ''a.jpg''] \<mapsto> tagged_file,
     Path ''/'' [''photos'', ''clip.mov''] \<mapsto> tagged_file,
     Path ''/'' [''photos'', ''gone.mov''] \<mapsto> File (Inl PermissionError) (Inl PermissionError) None]"

text \<open>A Live Photo bucket with two images, and a file beside it.\<close>

definition img_png :: path where
  "img_png = Path ''/'' [''photos'', ''IMG.png'']"

definition img_jpg :: path where
  "img_jpg = Path ''/'' [''photos'', ''IMG.jpg'']"

definition img_mov :: path where
  "img_mov = Path ''/'' [''photos'', ''IMG.mov'']"

definition other_jpg :: path where
  "other_jpg = Path ''/'' [''photos'', ''other.jpg'']"

text \<open>A file that \<^verbatim>\<open>shutil.move\<close> cannot move.\<close>

definition locked_file :: node where
  "locked_file = File (Inr stamp) (Inr Map.empty) (Some PermissionError)"

definition world_of :: "filesys \<Rightarrow> world" where
  "world_of fs = \<lparr>w_fs = fs, w_calls = [], w_log = []\<rparr>"

definition locked_master_fs :: filesys where
  "locked_master_fs =
     [root \<mapsto> Dir, photos \<mapsto> Dir, img_jpg \<mapsto> locked_file, img_mov \<mapsto> plain_file,
      other_jpg \<mapsto> plain_file]"

definition locked_single_fs :: filesys where
  "locked_single_fs =
     [root \<mapsto> Dir, photos \<mapsto> Dir, img_jpg \<mapsto> locked_file, other_jpg \<mapsto> plain_file]"

definition move_opts :: opts where
  "move_opts = \<lparr>dry_run = False, copy_mode = False, include_unknown = True\<rparr>"

text \<open>What a run returns, the calls it made and the lines it logged.\<close>

definition observe :: "((error + unit) \<times> world) option \<Rightarrow> ((error + unit) \<times> fscall list \<times> string list) option" where
  "observe res = map_option (\<lambda>(r, w). (r, w_calls w, w_log w)) res"





definition sim_opts :: opts where
  "sim_opts = \<lparr>dry_run = True, copy_mode = False, include_unknown = True\<rparr>"

text \<open>A call that works on the folder \<open>td\<close>: it makes that folder, or copies or moves
  one of the files to a path directly in it.\<close>

fun into_folder :: "path \<Rightarrow> path list \<Rightarrow> fscall \<Rightarrow> bool" where
  "into_folder td files (Mkdir d) = (d = td)"
| "into_folder td files (Copy2 s d) = (s \<in> set files \<and> parent d = td)"
| "into_folder td files (Move s d) = (s \<in> set files \<and> parent d = td)"


text \<open>The name of the folder of a date, line 321:
  \<^verbatim>\<open>build_target_dirname(dt) if dt else UNKNOWN_DIR_NAME\<close>.\<close>

definition dirname_of :: "datetime option \<Rightarrow> string" where
  "dirname_of dt = (case dt of Some d \<Rightarrow> build_target_dirname d | None \<Rightarrow> UNKNOWN_DIR_NAME)"

text \<open>The calls that relocate the file \<open>p\<close> to the path \<open>f\<close> of the folder \<open>td\<close>: none
  in a simulated run, otherwise the creation of the folder and the copy or the move. The
  calls for a list of files and their destinations follow each other in the order of the
  files.\<close>

definition relocation :: "opts \<Rightarrow> path \<Rightarrow> path \<Rightarrow> path \<Rightarrow> fscall list" where
  "relocation opt td p f =
     (if dry_run opt then []
      else [Mkdir td, if copy_mode opt then Copy2 p f else Move p f])"

fun relocations :: "opts \<Rightarrow> path \<Rightarrow> path list \<Rightarrow> path list \<Rightarrow> fscall list" where
  "relocations opt td (p # ps) (f # fs) = relocation opt td p f @ relocations opt td ps fs"
| "relocations opt td ps fs = []"

text \<open>What a call does to the file system, and what a list of calls does when each of
  them succeeds.\<close>

fun exec_call :: "filesys \<Rightarrow> fscall \<Rightarrow> error + filesys" where
  "exec_call fs (Mkdir d) = mkdir_parents fs d"
| "exec_call fs (Copy2 s d) = copy2 fs s d"
| "exec_call fs (Move s d) = move fs s d"

fun exec_calls :: "filesys \<Rightarrow> fscall list \<Rightarrow> error + filesys" where
  "exec_calls fs [] = Inr fs"
| "exec_calls fs (c # cs) =
     (case exec_call fs c of
        Inl e \<Rightarrow> Inl e
      | Inr fs' \<Rightarrow> exec_calls fs' cs)"

text \<open>The line that reports the file \<open>p\<close> as relocated to the path \<open>f\<close> of the folder
  named \<open>dn\<close>, and the lines of the videos of a pair, one for each video and in their
  order.\<close>

definition relocated_line :: "opts \<Rightarrow> path \<Rightarrow> string \<Rightarrow> string \<Rightarrow> path \<Rightarrow> path \<Rightarrow> string \<Rightarrow> bool" where
  "relocated_line opt src dn label p f l =
     (case relative_to p src of
        Inl e \<Rightarrow> False
      | Inr rel \<Rightarrow> l = outcome_line (action_of opt) rel dn f label)"

fun companion_lines :: "opts \<Rightarrow> path \<Rightarrow> string \<Rightarrow> path list \<Rightarrow> path list \<Rightarrow> string list \<Rightarrow> bool" where
  "companion_lines opt src dn [] [] [] = True"
| "companion_lines opt src dn (v # vs) (f # fs) (l # ls) =
     (relocated_line opt src dn '' (paired with photo)'' v f l \<and> companion_lines opt src dn vs fs ls)"
| "companion_lines opt src dn vs fs ls = False"

text \<open>An image that cannot be opened and whose modification time cannot be read, and
  pairs with and without a date.\<close>

definition undated_file :: node where
  "undated_file = File (Inl PermissionError) (Inl (OtherError ''UnidentifiedImageError()'')) None"

definition undated_pair_fs :: filesys where
  "undated_pair_fs =
     [root \<mapsto> Dir, photos \<mapsto> Dir, img_jpg \<mapsto> undated_file, img_mov \<mapsto> plain_file,
      other_jpg \<mapsto> undated_file]"

definition dated_pair_fs :: filesys where
  "dated_pair_fs = [root \<mapsto> Dir, photos \<mapsto> Dir, img_jpg \<mapsto> tagged_file, img_mov \<mapsto> plain_file]"

definition strict_opts :: opts where
  "strict_opts = \<lparr>dry_run = False, copy_mode = True, include_unknown = False\<rparr>"









section \<open>Properties\<close>

subsection \<open>The path planner\<close>

lemma digits_nth_inj: "a < 10 \<Longrightarrow> b < 10 \<Longrightarrow> digits ! a = digits ! b \<Longrightarrow> a = b"
proof -
  have d: "distinct digits" by (simp add: digits_def)
  have l: "length digits = 10" by (simp add: digits_def)
  show "a < 10 \<Longrightarrow> b < 10 \<Longrightarrow> digits ! a = digits ! b \<Longrightarrow> a = b"
    using d l by (simp add: nth_eq_iff_index_eq)
qed

lemma str_nat_nonempty: "str_nat n \<noteq> []"
  by (subst str_nat.simps) simp

lemma str_nat_inj: "str_nat m = str_nat n \<Longrightarrow> m = n"
proof (induction m arbitrary: n rule: str_nat.induct)
  case (1 m)
  show ?case
  proof (cases "m < 10")
    case True
    then have sm: "str_nat m = [digits ! m]" by (subst str_nat.simps) simp
    show ?thesis
    proof (cases "n < 10")
      case n: True
      then have "str_nat n = [digits ! n]" by (subst str_nat.simps) simp
      with sm "1.prems" have "digits ! m = digits ! n" by simp
      with True n show ?thesis by (rule digits_nth_inj)
    next
      case n: False
      then have "str_nat n = str_nat (n div 10) @ [digits ! (n mod 10)]"
        by (subst str_nat.simps) simp
      with sm "1.prems" have "str_nat (n div 10) = []" by simp
      with str_nat_nonempty show ?thesis by blast
    qed
  next
    case False
    then have sm: "str_nat m = str_nat (m div 10) @ [digits ! (m mod 10)]"
      by (subst str_nat.simps) simp
    show ?thesis
    proof (cases "n < 10")
      case n: True
      then have "str_nat n = [digits ! n]" by (subst str_nat.simps) simp
      with sm "1.prems" have "str_nat (m div 10) = []" by simp
      with str_nat_nonempty show ?thesis by blast
    next
      case n: False
      then have sn: "str_nat n = str_nat (n div 10) @ [digits ! (n mod 10)]"
        by (subst str_nat.simps) simp
      from sm sn "1.prems" have a: "str_nat (m div 10) = str_nat (n div 10)"
        and b: "digits ! (m mod 10) = digits ! (n mod 10)" by simp_all
      from "1.IH" [OF False a] have q: "m div 10 = n div 10" .
      have "m mod 10 = n mod 10" by (rule digits_nth_inj [OF _ _ b]) simp_all
      with q show ?thesis by (metis div_mult_mod_eq)
    qed
  qed
qed

lemma candidate_inj:
  assumes "candidate par st suf i = candidate par st suf j"
  shows "i = j"
proof -
  have ne: "\<And>k. st @ ''_'' @ str_nat k @ suf \<noteq> []" by simp
  from assms have "st @ ''_'' @ str_nat i @ suf = st @ ''_'' @ str_nat j @ suf"
    unfolding candidate_def join_def using ne by (simp del: append_assoc)
  then have "str_nat i = str_nat j" by simp
  then show ?thesis by (rule str_nat_inj)
qed

lemma path_exists_dom: "path_exists fs p \<longleftrightarrow> p \<in> dom fs"
  by (cases "fs p") (auto simp: path_exists_def)

lemma stem_suffix_name: "stem p @ suffix p = name p"
proof (cases "0 < rfind (name p) (CHR ''.'') \<and> rfind (name p) (CHR ''.'') < int (length (name p)) - 1")
  case True
  then show ?thesis unfolding stem_def suffix_def Let_def
    by (simp only: simp_thms if_True append_take_drop_id)
next
  case False
  then show ?thesis unfolding stem_def suffix_def Let_def
    by (simp only: simp_thms if_False append_Nil2)
qed

text \<open>In a finite file system some candidate from round \<open>i\<close> on is free: the candidates
  of different rounds are different paths.\<close>

lemma free_candidate:
  assumes "finite (dom fs)"
  shows "\<exists>k\<ge>i. \<not> path_exists fs (candidate par st suf k)"
proof (rule ccontr)
  assume "\<not> ?thesis"
  then have all: "\<And>k. i \<le> k \<Longrightarrow> candidate par st suf k \<in> dom fs"
    by (auto simp: path_exists_def split: option.splits)
  have "inj_on (candidate par st suf) {i..}"
    by (rule inj_onI) (rule candidate_inj)
  moreover have "candidate par st suf ` {i..} \<subseteq> dom fs" using all by auto
  ultimately have "finite {i..}" using assms by (meson finite_imageD finite_subset)
  then show False by (simp add: infinite_Ici)
qed

text \<open>The loop started at round \<open>i\<close> returns the first free candidate from \<open>i\<close> on.\<close>

lemma unique_loop_run:
  assumes "\<not> path_exists fs (candidate par st suf k)"
    and "\<And>j. i \<le> j \<Longrightarrow> j < k \<Longrightarrow> path_exists fs (candidate par st suf j)"
    and "i \<le> k"
  shows "unique_loop fs par st suf i = Some (candidate par st suf k)"
  using assms
proof (induction n \<equiv> "k - i" arbitrary: i)
  case 0
  then have "i = k" by simp
  with "0.prems"(1) show ?case by (subst unique_loop.simps) simp
next
  case (Suc n)
  then have lt: "i < k" by simp
  with Suc.prems(2) have ex: "path_exists fs (candidate par st suf i)" by simp
  have n: "n = k - (i + 1)" using Suc.hyps(2) by simp
  have le: "i + 1 \<le> k" using lt by simp
  have "unique_loop fs par st suf (i + 1) = Some (candidate par st suf k)"
  proof (rule Suc.hyps(1) [OF n Suc.prems(1) _ le])
    fix j assume "i + 1 \<le> j" "j < k"
    then show "path_exists fs (candidate par st suf j)" using Suc.prems(2) [of j] by simp
  qed
  with ex show ?case by (subst unique_loop.simps) simp
qed

lemma candidates_bound:
  assumes "finite (dom fs)"
    and "\<And>j. i \<le> j \<Longrightarrow> j < k \<Longrightarrow> path_exists fs (candidate par st suf j)"
  shows "k - i \<le> card (dom fs)"
proof -
  have inj: "inj_on (candidate par st suf) {i..<k}"
    by (rule inj_onI) (rule candidate_inj)
  have sub: "candidate par st suf ` {i..<k} \<subseteq> dom fs"
  proof
    fix x assume "x \<in> candidate par st suf ` {i..<k}"
    then obtain j where j: "x = candidate par st suf j" "i \<le> j" "j < k" by auto
    from assms(2) [OF j(2) j(3)] show "x \<in> dom fs" by (simp only: j(1) path_exists_dom)
  qed
  have "k - i = card (candidate par st suf ` {i..<k})"
    using inj by (simp add: card_image)
  also have "\<dots> \<le> card (dom fs)" using sub assms(1) by (rule card_mono [rotated])
  finally show ?thesis .
qed

lemma unique_loop_returns:
  assumes "finite (dom fs)"
  shows "\<exists>k\<ge>i. unique_loop fs par st suf i = Some (candidate par st suf k)
           \<and> \<not> path_exists fs (candidate par st suf k)
           \<and> (\<forall>j. i \<le> j \<and> j < k \<longrightarrow> path_exists fs (candidate par st suf j))
           \<and> k \<le> i + card (dom fs)"
proof -
  define P where "P k \<longleftrightarrow> i \<le> k \<and> \<not> path_exists fs (candidate par st suf k)" for k
  from free_candidate [OF assms] have "\<exists>k. P k" by (auto simp: P_def)
  then have Pk: "P (LEAST k. P k)" by (rule LeastI_ex)
  define k where "k = (LEAST k. P k)"
  have least: "path_exists fs (candidate par st suf j)" if "i \<le> j" "j < k" for j
  proof (rule ccontr)
    assume "\<not> path_exists fs (candidate par st suf j)"
    with that(1) have "P j" by (simp add: P_def)
    then have "k \<le> j" unfolding k_def by (rule Least_le)
    with that(2) show False by simp
  qed
  from Pk have ik: "i \<le> k" and free: "\<not> path_exists fs (candidate par st suf k)"
    by (simp_all add: k_def P_def)
  have run: "unique_loop fs par st suf i = Some (candidate par st suf k)"
    by (rule unique_loop_run [OF free least ik])
  have "k - i \<le> card (dom fs)" by (rule candidates_bound [OF assms least])
  then have "k \<le> i + card (dom fs)" by simp
  with run free least ik show ?thesis by blast
qed

text \<open>
  Claim C7. In a file system with finitely many entries, \<^verbatim>\<open>ensure_unique_path\<close> returns
  a path at which nothing exists: the target itself when it is free, and otherwise
  \<^verbatim>\<open>parent / f"{stem}_{i}{suffix}"\<close> (the \<open>candidate\<close> of round \<open>i\<close>) for the
  smallest \<open>i \<ge> 1\<close> whose candidate is free; stem and suffix are the two halves of the
  target's name, so the number stands before the extension.
\<close>

theorem ensure_unique_path_spec:
  assumes "finite (dom fs)"
  shows "\<exists>r. ensure_unique_path fs target = Some r \<and> \<not> path_exists fs r
           \<and> stem target @ suffix target = name target
           \<and> (if \<not> path_exists fs target then r = target
               else \<exists>i\<ge>1. r = candidate (parent target) (stem target) (suffix target) i
                      \<and> (\<forall>j. 1 \<le> j \<and> j < i \<longrightarrow>
                            path_exists fs (candidate (parent target) (stem target) (suffix target) j)))"
proof (cases "path_exists fs target")
  case False
  then show ?thesis by (simp add: ensure_unique_path_def stem_suffix_name)
next
  case True
  from unique_loop_returns [OF assms, of 1 "parent target" "stem target" "suffix target"]
  obtain k where k: "1 \<le> k"
    "unique_loop fs (parent target) (stem target) (suffix target) 1
       = Some (candidate (parent target) (stem target) (suffix target) k)"
    "\<not> path_exists fs (candidate (parent target) (stem target) (suffix target) k)"
    "\<forall>j. 1 \<le> j \<and> j < k \<longrightarrow>
       path_exists fs (candidate (parent target) (stem target) (suffix target) j)"
    by blast
  from True k(2) have "ensure_unique_path fs target
      = Some (candidate (parent target) (stem target) (suffix target) k)"
    by (simp add: ensure_unique_path_def)
  with True k(1,3,4) show ?thesis by (auto simp: stem_suffix_name)
qed

theorem ensure_unique_path_spec_witness:
  "finite (dom taken_fs)
   \<and> path_exists taken_fs (Path ''/'' [''photos'', ''2020-01'', ''x.jpg''])
   \<and> ensure_unique_path taken_fs (Path ''/'' [''photos'', ''2020-01'', ''x.jpg''])
       = Some (Path ''/'' [''photos'', ''2020-01'', ''x_2.jpg''])
   \<and> (\<exists>r. ensure_unique_path taken_fs (Path ''/'' [''photos'', ''2020-01'', ''x.jpg'']) = Some r
          \<and> \<not> path_exists taken_fs r)"
proof -
  have fin: "finite (dom taken_fs)" by (simp add: taken_fs_def)
  have ex: "path_exists taken_fs (Path ''/'' [''photos'', ''2020-01'', ''x.jpg''])" by code_simp
  have run: "ensure_unique_path taken_fs (Path ''/'' [''photos'', ''2020-01'', ''x.jpg''])
       = Some (Path ''/'' [''photos'', ''2020-01'', ''x_2.jpg''])" by code_simp
  from ensure_unique_path_spec [OF fin, of "Path ''/'' [''photos'', ''2020-01'', ''x.jpg'']"]
  have "\<exists>r. ensure_unique_path taken_fs (Path ''/'' [''photos'', ''2020-01'', ''x.jpg'']) = Some r
          \<and> \<not> path_exists taken_fs r" by blast
  with fin ex run show ?thesis by blast
qed



subsection \<open>The date resolver\<close>

lemma strptime_empty_all: "list_all (\<lambda>f. strptime [] f = None) fmts"
  by code_simp

lemma strptime_empty: "f \<in> set fmts \<Longrightarrow> strptime [] f = None"
  using strptime_empty_all by (simp add: list_all_iff)

lemma try_fmts_first:
  assumes "fs = fpre @ fmt # fpost" "\<forall>f\<in>set fpre. strptime v f = None" "strptime v fmt = Some dt"
  shows "try_fmts v fs = Some dt"
  using assms by (induction fpre arbitrary: fs) auto

lemma scan_candidates_first:
  assumes "keys = pre @ key # post"
    and "\<forall>k\<in>set pre. case exif k of None \<Rightarrow> True | Some v' \<Rightarrow> parse_exif_datetime v' = None"
    and "exif key = Some v" and "parse_exif_datetime v = Some dt"
  shows "scan_candidates exif keys = Some dt"
  using assms by (induction pre arbitrary: keys) (auto split: option.splits)

lemma scan_candidates_none:
  assumes "\<forall>k\<in>set keys. case exif k of None \<Rightarrow> True | Some v' \<Rightarrow> parse_exif_datetime v' = None"
  shows "scan_candidates exif keys = None"
  using assms by (induction keys) (auto split: option.splits)

text \<open>
  Claim C5. For an image file whose metadata can be read, let \<open>key\<close> be the first of
  the candidate tags DateTimeOriginal, CreateDate, DateTimeDigitized, DateTime (in that
  order) that is in the dictionary with a value that parses, and \<open>fmt\<close> the first of
  the six formats under which that value parses, giving \<open>dt\<close>. Then the date resolver
  returns \<open>dt\<close> with the source \<^verbatim>\<open>'exif'\<close>, the program's tag for a date taken from
  the metadata.
\<close>

theorem get_image_datetime_metadata:
  assumes "is_image_file p"
    and "image_exif fs p = Inr exif"
    and "EXIF_DATETIME_CANDIDATES = pre @ key # post"
    and "\<forall>k\<in>set pre. case exif k of None \<Rightarrow> True | Some v' \<Rightarrow> parse_exif_datetime v' = None"
    and "exif key = Some v"
    and "fmts = fpre @ fmt # fpost"
    and "\<forall>f\<in>set fpre. strptime v f = None"
    and "strptime v fmt = Some dt"
  shows "get_image_datetime fs p = (Some dt, Some ''exif'')
         \<and> single_datetime fs p = (Some dt, Some ''exif'')"
proof -
  have "v \<noteq> []"
  proof
    assume "v = []"
    moreover have "set fmts = set (fpre @ fmt # fpost)" using assms(6) by (rule arg_cong)
    then have "fmt \<in> set fmts" by simp
    ultimately have "strptime v fmt = None" by (simp add: strptime_empty)
    with assms(8) show False by simp
  qed
  moreover have "try_fmts v fmts = Some dt" by (rule try_fmts_first [OF assms(6-8)])
  ultimately have "parse_exif_datetime v = Some dt" by (simp add: parse_exif_datetime_def)
  with assms(3-5) have "scan_candidates exif EXIF_DATETIME_CANDIDATES = Some dt"
    by (rule scan_candidates_first)
  with assms(2) have "get_image_datetime fs p = (Some dt, Some ''exif'')"
    by (simp add: get_image_datetime_def)
  with assms(1) show ?thesis by (simp add: single_datetime_def)
qed


theorem get_image_datetime_metadata_witness:
  "is_image_file (Path ''/'' [''photos'', ''a.jpg''])
   \<and> get_image_datetime tagged_fs (Path ''/'' [''photos'', ''a.jpg''])
       = (Some \<lparr>year = 2021, month = 3, day = 4, hour = 10, minute = 11, second = 0\<rparr>, Some ''exif'')
   \<and> single_datetime tagged_fs (Path ''/'' [''photos'', ''a.jpg''])
       = (Some \<lparr>year = 2021, month = 3, day = 4, hour = 10, minute = 11, second = 0\<rparr>, Some ''exif'')"
proof -
  let ?p = "Path ''/'' [''photos'', ''a.jpg'']"
  let ?exif = "[''DateTimeOriginal'' \<mapsto> ''0000:00:00 00:00:00'', ''DateTime'' \<mapsto> ''2021-03-04 10:11'']"
  let ?dt = "\<lparr>year = 2021, month = 3, day = 4, hour = 10, minute = 11, second = 0\<rparr>"
  have img: "is_image_file ?p" by code_simp
  have opn: "image_exif tagged_fs ?p = Inr ?exif"
    by (simp add: image_exif_def tagged_fs_def tagged_file_def photos_def root_def)
  have keys: "EXIF_DATETIME_CANDIDATES
      = [''DateTimeOriginal'', ''CreateDate'', ''DateTimeDigitized''] @ ''DateTime'' # []"
    by (simp add: EXIF_DATETIME_CANDIDATES_def)
  have p0: "parse_exif_datetime ''0000:00:00 00:00:00'' = None" by code_simp
  have earlier: "\<forall>k\<in>set [''DateTimeOriginal'', ''CreateDate'', ''DateTimeDigitized''].
      case ?exif k of None \<Rightarrow> True | Some v' \<Rightarrow> parse_exif_datetime v' = None"
    by (simp add: p0)
  have val: "?exif ''DateTime'' = Some ''2021-03-04 10:11''" by simp
  have fm: "fmts = [''%Y:%m:%d %H:%M:%S'', ''%Y:%m:%d %H:%M'', ''%Y-%m-%d %H:%M:%S'']
      @ ''%Y-%m-%d %H:%M'' # [''%Y/%m/%d %H:%M:%S'', ''%Y/%m/%d %H:%M'']"
    by (simp add: fmts_def)
  have f1: "strptime ''2021-03-04 10:11'' ''%Y:%m:%d %H:%M:%S'' = None" by code_simp
  have f2: "strptime ''2021-03-04 10:11'' ''%Y:%m:%d %H:%M'' = None" by code_simp
  have f3: "strptime ''2021-03-04 10:11'' ''%Y-%m-%d %H:%M:%S'' = None" by code_simp
  have before: "\<forall>f\<in>set [''%Y:%m:%d %H:%M:%S'', ''%Y:%m:%d %H:%M'', ''%Y-%m-%d %H:%M:%S''].
      strptime ''2021-03-04 10:11'' f = None"
    by (simp add: f1 f2 f3)
  have hit: "strptime ''2021-03-04 10:11'' ''%Y-%m-%d %H:%M'' = Some ?dt" by code_simp
  from get_image_datetime_metadata [OF img opn keys earlier val fm before hit] img
  show ?thesis by simp
qed

text \<open>
  Claim C6. The date resolver has no exception among its results: the exceptions of
  opening the image and of reading the modification time are the values \<open>Inl e\<close>, and
  both are caught. For a file that is not an image, an image that cannot be opened, or
  an image none of whose candidate tags is present with a value that parses, the result
  is the modification time with the source \<^verbatim>\<open>'mtime'\<close>, and no date and no source when
  reading the modification time fails too.
\<close>

theorem date_resolution_fallback:
  assumes "\<not> is_image_file p
           \<or> (case image_exif fs p of
                 Inl e \<Rightarrow> True
               | Inr exif \<Rightarrow>
                   \<forall>k\<in>set EXIF_DATETIME_CANDIDATES.
                     case exif k of None \<Rightarrow> True | Some v \<Rightarrow> parse_exif_datetime v = None)"
  shows "single_datetime fs p
         = (case stat_mtime fs p of
              Inr ts \<Rightarrow> (Some ts, Some ''mtime'')
            | Inl e \<Rightarrow> (None, None))"
proof (cases "is_image_file p")
  case False
  then show ?thesis by (simp add: single_datetime_def)
next
  case True
  with assms have h: "case image_exif fs p of
                 Inl e \<Rightarrow> True
               | Inr exif \<Rightarrow>
                   \<forall>k\<in>set EXIF_DATETIME_CANDIDATES.
                     case exif k of None \<Rightarrow> True | Some v \<Rightarrow> parse_exif_datetime v = None" by simp
  have "(case image_exif fs p of Inl e \<Rightarrow> None
          | Inr exif \<Rightarrow> scan_candidates exif EXIF_DATETIME_CANDIDATES) = None"
  proof (cases "image_exif fs p")
    case (Inl e)
    then show ?thesis by simp
  next
    case (Inr exif)
    with h have "scan_candidates exif EXIF_DATETIME_CANDIDATES = None"
      by (intro scan_candidates_none) simp
    with Inr show ?thesis by simp
  qed
  then have "get_image_datetime fs p
         = (case stat_mtime fs p of
              Inr ts \<Rightarrow> (Some ts, Some ''mtime'')
            | Inl e \<Rightarrow> (None, None))"
    by (simp add: get_image_datetime_def)
  with True show ?thesis by (simp add: single_datetime_def)
qed

theorem date_resolution_fallback_witness:
  "\<not> is_image_file (Path ''/'' [''photos'', ''clip.mov''])
   \<and> single_datetime tagged_fs (Path ''/'' [''photos'', ''clip.mov'']) = (Some stamp, Some ''mtime'')
   \<and> \<not> is_image_file (Path ''/'' [''photos'', ''gone.mov''])
   \<and> single_datetime tagged_fs (Path ''/'' [''photos'', ''gone.mov'']) = (None, None)"
proof -
  have v1: "\<not> is_image_file (Path ''/'' [''photos'', ''clip.mov''])" by code_simp
  have v2: "\<not> is_image_file (Path ''/'' [''photos'', ''gone.mov''])" by code_simp
  have s1: "stat_mtime tagged_fs (Path ''/'' [''photos'', ''clip.mov'']) = Inr stamp"
    by (simp add: stat_mtime_def tagged_fs_def tagged_file_def photos_def root_def)
  have s2: "stat_mtime tagged_fs (Path ''/'' [''photos'', ''gone.mov'']) = Inl PermissionError"
    by (simp add: stat_mtime_def tagged_fs_def tagged_file_def photos_def root_def)
  from date_resolution_fallback [of "Path ''/'' [''photos'', ''clip.mov'']" tagged_fs] v1 s1
  have r1: "single_datetime tagged_fs (Path ''/'' [''photos'', ''clip.mov'']) = (Some stamp, Some ''mtime'')"
    by simp
  from date_resolution_fallback [of "Path ''/'' [''photos'', ''gone.mov'']" tagged_fs] v2 s2
  have r2: "single_datetime tagged_fs (Path ''/'' [''photos'', ''gone.mov'']) = (None, None)"
    by simp
  from v1 v2 r1 r2 show ?thesis by simp
qed

text \<open>
  Claim C8, at a year below 1000. The metadata value \<^verbatim>\<open>0999:05:01 10:00:00\<close> parses
  to a date in the year 999, and the folder name built for it is \<^verbatim>\<open>999-05\<close>: the year
  is padded to two digits, not to four.
\<close>

theorem build_target_dirname_short_year:
  "parse_exif_datetime ''0999:05:01 10:00:00''
     = Some \<lparr>year = 999, month = 5, day = 1, hour = 10, minute = 0, second = 0\<rparr>
   \<and> build_target_dirname \<lparr>year = 999, month = 5, day = 1, hour = 10, minute = 0, second = 0\<rparr>
     = ''999-05''"
  by code_simp

subsection \<open>The grouper\<close>

text \<open>
  Claim C1, at a bucket whose images are listed with the larger path first. The files
  \<^verbatim>\<open>IMG.png\<close>, \<^verbatim>\<open>IMG.jpg\<close>, \<^verbatim>\<open>IMG.mov\<close> of one folder, in this order, give the pair
  of \<^verbatim>\<open>IMG.jpg\<close> with \<^verbatim>\<open>IMG.mov\<close> and no single: the master is the first of the sorted
  images, the demoted images are the unsorted list without its first element, which here
  is \<^verbatim>\<open>IMG.jpg\<close> again, and \<^verbatim>\<open>IMG.png\<close> is in neither result. Listed with
  \<^verbatim>\<open>IMG.jpg\<close> first, \<^verbatim>\<open>IMG.png\<close> is a single.
\<close>

theorem pair_live_photos_drops_image:
  "pair_live_photos [img_png, img_jpg, img_mov] = ([(img_jpg, [img_mov])], [])
   \<and> pair_live_photos [img_jpg, img_png, img_mov] = ([(img_jpg, [img_mov])], [img_png])"
  by code_simp

subsection \<open>The relocation engine\<close>

text \<open>
  Claim C2, at a pair whose master cannot be moved. The run over the pair of
  \<^verbatim>\<open>IMG.jpg\<close> and \<^verbatim>\<open>IMG.mov\<close> and the single \<^verbatim>\<open>other.jpg\<close> leaves with the
  PermissionError of the move: no line is logged, neither the video nor the single is
  processed. The same failure on a single is logged as an error line, and the run goes
  on to the next single and to its end.
\<close>

theorem pair_failure_ends_run:
  "observe (worker move_opts photos [img_jpg, img_mov, other_jpg] (world_of locked_master_fs))
     = Some (Inl PermissionError,
             [Mkdir (Path ''/'' [''photos'', ''2020-01'']),
              Move img_jpg (Path ''/'' [''photos'', ''2020-01'', ''IMG.jpg''])],
             [])
   \<and> observe (worker move_opts photos [img_jpg, other_jpg] (world_of locked_single_fs))
     = Some (Inr (),
             [Mkdir (Path ''/'' [''photos'', ''2020-01'']),
              Move img_jpg (Path ''/'' [''photos'', ''2020-01'', ''IMG.jpg'']),
              Mkdir (Path ''/'' [''photos'', ''2020-01'']),
              Move other_jpg (Path ''/'' [''photos'', ''2020-01'', ''other.jpg''])],
             [''Error with IMG.jpg: PermissionError()'',
              ''Moved: other.jpg  ->  2020-01/other.jpg (mtime)'',
              ''Done!''])"
  by code_simp

subsection \<open>Relocations\<close>

lemma parent_join: "s \<noteq> [] \<Longrightarrow> parent (join q s) = q"
  by (cases q) (simp add: parent_def join_def)

lemma name_join: "s \<noteq> [] \<Longrightarrow> name (join q s) = s"
  by (simp add: name_def join_def)

lemma lower_nonempty: "lower s \<noteq> [] \<Longrightarrow> s \<noteq> []"
  by (auto simp: lower_def)

lemma suffix_name_nonempty: "suffix p \<noteq> [] \<Longrightarrow> name p \<noteq> []"
  by (auto simp: suffix_def Let_def split: if_splits)

lemma image_name_nonempty: "is_image_file p \<Longrightarrow> name p \<noteq> []"
proof -
  assume "is_image_file p"
  then have "lower (suffix p) \<noteq> []" by (auto simp: is_image_file_def IMAGE_EXTS_def)
  then have "suffix p \<noteq> []" by (rule lower_nonempty)
  then show ?thesis by (rule suffix_name_nonempty)
qed

lemma video_name_nonempty: "is_video_file p \<Longrightarrow> name p \<noteq> []"
proof -
  assume "is_video_file p"
  then have "lower (suffix p) \<noteq> []" by (auto simp: is_video_file_def VIDEO_EXTS_def)
  then have "suffix p \<noteq> []" by (rule lower_nonempty)
  then show ?thesis by (rule suffix_name_nonempty)
qed

lemma candidate_parent: "parent (candidate par st suf i) = par"
  unfolding candidate_def by (rule parent_join) simp

lemma unique_loop_Some:
  assumes "unique_loop fs par st suf i = Some r"
  shows "\<exists>k\<ge>i. r = candidate par st suf k \<and> \<not> path_exists fs (candidate par st suf k)
        \<and> (\<forall>j. i \<le> j \<and> j < k \<longrightarrow> path_exists fs (candidate par st suf j))"
proof (rule unique_loop.raw_induct
    [where P = "\<lambda>fs par st suf i r. \<exists>k\<ge>i. r = candidate par st suf k
        \<and> \<not> path_exists fs (candidate par st suf k)
        \<and> (\<forall>j. i \<le> j \<and> j < k \<longrightarrow> path_exists fs (candidate par st suf j))", OF _ assms])
  fix loop :: "filesys \<Rightarrow> path \<Rightarrow> string \<Rightarrow> string \<Rightarrow> nat \<Rightarrow> path option"
  fix fs par st suf i r
  assume IH: "\<And>fs par st suf i r. loop fs par st suf i = Some r \<Longrightarrow>
      \<exists>k\<ge>i. r = candidate par st suf k \<and> \<not> path_exists fs (candidate par st suf k)
        \<and> (\<forall>j. i \<le> j \<and> j < k \<longrightarrow> path_exists fs (candidate par st suf j))"
  assume step: "(if \<not> path_exists fs (candidate par st suf i) then Some (candidate par st suf i)
      else loop fs par st suf (i + 1)) = Some r"
  show "\<exists>k\<ge>i. r = candidate par st suf k \<and> \<not> path_exists fs (candidate par st suf k)
        \<and> (\<forall>j. i \<le> j \<and> j < k \<longrightarrow> path_exists fs (candidate par st suf j))"
  proof (cases "path_exists fs (candidate par st suf i)")
    case False
    with step have "r = candidate par st suf i" by simp
    with False show ?thesis by (intro exI [of _ i]) auto
  next
    case True
    with step have "loop fs par st suf (i + 1) = Some r" by simp
    from IH [OF this] obtain k where k: "i + 1 \<le> k" "r = candidate par st suf k"
      "\<not> path_exists fs (candidate par st suf k)"
      "\<forall>j. i + 1 \<le> j \<and> j < k \<longrightarrow> path_exists fs (candidate par st suf j)" by blast
    have "\<forall>j. i \<le> j \<and> j < k \<longrightarrow> path_exists fs (candidate par st suf j)"
    proof (intro allI impI)
      fix j assume j: "i \<le> j \<and> j < k"
      show "path_exists fs (candidate par st suf j)"
      proof (cases "j = i")
        case True with \<open>path_exists fs (candidate par st suf i)\<close> show ?thesis by simp
      next
        case False with j k(4) show ?thesis by simp
      qed
    qed
    with k show ?thesis by (intro exI [of _ k]) auto
  qed
qed

lemma ensure_unique_path_parent:
  assumes "ensure_unique_path fs target = Some f"
  shows "parent f = parent target"
proof (cases "path_exists fs target")
  case False
  with assms show ?thesis by (simp add: ensure_unique_path_def)
next
  case True
  with assms have "unique_loop fs (parent target) (stem target) (suffix target) 1 = Some f"
    by (simp add: ensure_unique_path_def)
  from unique_loop_Some [OF this] show ?thesis by (auto simp: candidate_parent)
qed



lemma os_mkdir_Inr: "os_mkdir fs d = Inr fs' \<Longrightarrow> fs' = fs(d \<mapsto> Dir)"
  by (auto simp: os_mkdir_def split: if_splits option.splits node.splits)

lemma mkdir_exist_ok_Inr: "mkdir_exist_ok fs d = Inr fs' \<Longrightarrow> fs' = fs \<or> fs' = fs(d \<mapsto> Dir)"
  by (auto simp: mkdir_exist_ok_def split: sum.splits if_splits dest: os_mkdir_Inr)


lemma mkdir_parents_finite:
  "mkdir_parents fs d = Inr fs' \<Longrightarrow> finite (dom fs) \<Longrightarrow> finite (dom fs')"
proof (induction fs d arbitrary: fs' rule: mkdir_parents.induct)
  case (1 fs d)
  show ?case
  proof (cases "os_mkdir fs d")
    case (Inr fs1)
    with "1.prems"(1) have "fs' = fs1" by (subst (asm) mkdir_parents.simps) simp
    with os_mkdir_Inr [OF Inr] have "dom fs' = insert d (dom fs)" by simp
    with "1.prems"(2) show ?thesis by simp
  next
    case (Inl e)
    show ?thesis
    proof (cases "e = FileNotFoundError")
      case False
      with Inl "1.prems"(1) have "fs' = fs"
        by (subst (asm) mkdir_parents.simps) (simp split: if_splits)
      with "1.prems"(2) show ?thesis by simp
    next
      case True
      show ?thesis
      proof (cases "parent d = d")
        case same: True
        with Inl True "1.prems"(1) show ?thesis by (subst (asm) mkdir_parents.simps) simp
      next
        case diff: False
        with Inl True "1.prems"(1) obtain fs1 where
          par: "mkdir_parents fs (parent d) = Inr fs1" and self: "mkdir_exist_ok fs1 d = Inr fs'"
          by (subst (asm) mkdir_parents.simps) (auto split: sum.splits)
        from "1.IH" [OF Inl True diff par "1.prems"(2)] have "finite (dom fs1)" .
        show ?thesis
        proof (cases "fs' = fs1")
          case True
          with \<open>finite (dom fs1)\<close> show ?thesis by simp
        next
          case False
          with mkdir_exist_ok_Inr [OF self] have "fs' = fs1(d \<mapsto> Dir)" by simp
          then have "dom fs' = insert d (dom fs1)" by simp
          with \<open>finite (dom fs1)\<close> show ?thesis by simp
        qed
      qed
    qed
  qed
qed

lemma copy2_Inr: "copy2 fs p d = Inr fs' \<Longrightarrow> \<exists>n. fs' = fs(d \<mapsto> n)"
  by (auto simp: copy2_def split: option.splits node.splits)

lemma move_Inr: "move fs p d = Inr fs' \<Longrightarrow> \<exists>n. fs' = (fs(p := None))(d \<mapsto> n)"
  by (auto simp: move_def split: option.splits node.splits)

lemma do_call_log: "do_call c res w = (r, w') \<Longrightarrow> w_log w' = w_log w \<and> w_calls w' = w_calls w @ [c]"
  by (auto simp: do_call_def split: sum.splits)

lemma do_call_Inr: "do_call c res w = (Inr u, w') \<Longrightarrow> res = Inr (w_fs w')"
  by (auto simp: do_call_def split: sum.splits)

lemma do_call_Inl: "do_call c res w = (Inl e, w') \<Longrightarrow> res = Inl e \<and> w_fs w' = w_fs w"
  by (auto simp: do_call_def split: sum.splits)



lemma move_or_copy_dry:
  "dry_run opt \<Longrightarrow>
   move_or_copy opt p td w
     = (case ensure_unique_path (w_fs w) (join td (name p)) of
          None \<Rightarrow> None
        | Some f \<Rightarrow> Some (Inr f, w))"
  by (simp add: move_or_copy_def Let_def split: option.splits)

text \<open>The two ways a relocation that is not simulated can go: the directory cannot be
  made, or it is made, the unique path is chosen in the file system as it is then, and
  the file is copied or moved.\<close>

lemma move_or_copy_real:
  assumes "\<not> dry_run opt" and "move_or_copy opt p td w = Some (r, w')"
  shows "(\<exists>e. mkdir_parents (w_fs w) td = Inl e \<and> r = Inl e
            \<and> w' = w\<lparr>w_calls := w_calls w @ [Mkdir td]\<rparr>)
         \<or> (\<exists>fs1 f. mkdir_parents (w_fs w) td = Inr fs1
               \<and> ensure_unique_path fs1 (join td (name p)) = Some f
               \<and> w_log w' = w_log w
               \<and> w_calls w' = w_calls w @ [Mkdir td, if copy_mode opt then Copy2 p f else Move p f]
               \<and> (case (if copy_mode opt then copy2 fs1 p f else move fs1 p f) of
                     Inl e \<Rightarrow> r = Inl e \<and> w_fs w' = fs1
                   | Inr fs2 \<Rightarrow> r = Inr f \<and> w_fs w' = fs2))"
proof (cases "mkdir_parents (w_fs w) td")
  case (Inl e)
  with assms show ?thesis by (simp add: move_or_copy_def do_call_def)
next
  case (Inr fs1)
  let ?w1 = "w\<lparr>w_fs := fs1, w_calls := w_calls w @ [Mkdir td]\<rparr>"
  from assms Inr obtain f where f: "ensure_unique_path fs1 (join td (name p)) = Some f"
    by (cases "ensure_unique_path fs1 (join td (name p))")
       (simp_all add: move_or_copy_def do_call_def Let_def)
  show ?thesis
  proof (cases "copy_mode opt")
    case True
    with assms Inr f have "(case do_call (Copy2 p f) (copy2 fs1 p f) ?w1 of
          (Inl e, w2) \<Rightarrow> Some (Inl e, w2)
        | (Inr u', w2) \<Rightarrow> Some (Inr f, w2)) = Some (r, w')"
      by (simp add: move_or_copy_def do_call_def Let_def)
    with Inr f True show ?thesis
      by (cases "copy2 fs1 p f") (auto simp: do_call_def)
  next
    case False
    with assms Inr f have "(case do_call (Move p f) (move fs1 p f) ?w1 of
          (Inl e, w2) \<Rightarrow> Some (Inl e, w2)
        | (Inr u', w2) \<Rightarrow> Some (Inr f, w2)) = Some (r, w')"
      by (simp add: move_or_copy_def do_call_def Let_def)
    with Inr f False show ?thesis
      by (cases "move fs1 p f") (auto simp: do_call_def)
  qed
qed


text \<open>Every relocation goes into the target directory: the calls made are the creation
  of that directory and a copy or move of the file to a path whose parent it is.\<close>

lemma move_or_copy_calls:
  assumes "name p \<noteq> []" and "move_or_copy opt p td w = Some (r, w')"
  shows "\<exists>new. w_calls w' = w_calls w @ new
           \<and> list_all (\<lambda>c. c = Mkdir td
                \<or> (\<exists>d. (c = Copy2 p d \<or> c = Move p d) \<and> parent d = td)) new"
proof (cases "dry_run opt")
  case True
  with assms(2) have "w' = w" by (auto simp: move_or_copy_dry split: option.splits)
  then show ?thesis by simp
next
  case False
  from move_or_copy_real [OF False assms(2)] show ?thesis
  proof (elim disjE exE conjE)
    fix e assume "w' = w\<lparr>w_calls := w_calls w @ [Mkdir td]\<rparr>"
    then show ?thesis by simp
  next
    fix fs1 f
    assume f: "ensure_unique_path fs1 (join td (name p)) = Some f"
      and c: "w_calls w' = w_calls w @ [Mkdir td, if copy_mode opt then Copy2 p f else Move p f]"
    from ensure_unique_path_parent [OF f] assms(1) have "parent f = td" by (simp add: parent_join)
    with c show ?thesis by auto
  qed
qed

lemma move_or_copy_dest:
  assumes "name p \<noteq> []" and "move_or_copy opt p td w = Some (Inr f, w')"
  shows "parent f = td"
proof (cases "dry_run opt")
  case True
  with assms(2) have "ensure_unique_path (w_fs w) (join td (name p)) = Some f"
    by (auto simp: move_or_copy_dry split: option.splits)
  from ensure_unique_path_parent [OF this] assms(1) show ?thesis by (simp add: parent_join)
next
  case False
  from move_or_copy_real [OF False assms(2)] obtain fs1 f' where
    f: "ensure_unique_path fs1 (join td (name p)) = Some f'"
    and r: "case (if copy_mode opt then copy2 fs1 p f' else move fs1 p f') of
              Inl e \<Rightarrow> Inr f = Inl e \<and> w_fs w' = fs1
            | Inr fs2 \<Rightarrow> (Inr f :: error + path) = Inr f' \<and> w_fs w' = fs2"
    by auto
  from r have "f = f'" by (auto split: sum.splits)
  with ensure_unique_path_parent [OF f] assms(1) show ?thesis by (simp add: parent_join)
qed


lemma copy2_finite: "copy2 fs p d = Inr fs' \<Longrightarrow> finite (dom fs) \<Longrightarrow> finite (dom fs')"
  by (auto dest!: copy2_Inr)

lemma move_finite: "move fs p d = Inr fs' \<Longrightarrow> finite (dom fs) \<Longrightarrow> finite (dom fs')"
  by (auto dest!: move_Inr)

lemma ensure_unique_path_returns:
  assumes "finite (dom fs)"
  shows "\<exists>r. ensure_unique_path fs target = Some r"
  using unique_loop_returns [OF assms, of 1 "parent target" "stem target" "suffix target"]
  by (auto simp: ensure_unique_path_def)

text \<open>In a finite file system a relocation returns, and leaves a finite file system.\<close>

lemma move_or_copy_returns:
  assumes "finite (dom (w_fs w))"
  shows "\<exists>r w'. move_or_copy opt p td w = Some (r, w') \<and> finite (dom (w_fs w'))"
proof (cases "dry_run opt")
  case True
  from ensure_unique_path_returns [OF assms] obtain f where
    "ensure_unique_path (w_fs w) (join td (name p)) = Some f" by blast
  with True assms show ?thesis by (simp add: move_or_copy_dry)
next
  case False
  show ?thesis
  proof (cases "mkdir_parents (w_fs w) td")
    case (Inl e)
    with False assms show ?thesis by (simp add: move_or_copy_def do_call_def)
  next
    case (Inr fs1)
    from mkdir_parents_finite [OF Inr assms] have fin1: "finite (dom fs1)" .
    from ensure_unique_path_returns [OF fin1] obtain f where
      f: "ensure_unique_path fs1 (join td (name p)) = Some f" by blast
    show ?thesis
    proof (cases "copy_mode opt")
      case True
      show ?thesis
      proof (cases "copy2 fs1 p f")
        case (Inl e)
        with False Inr f True fin1 show ?thesis by (simp add: move_or_copy_def do_call_def)
      next
        case fs2: (Inr fs2)
        from copy2_finite [OF fs2 fin1] False Inr f True fs2 show ?thesis
          by (simp add: move_or_copy_def do_call_def)
      qed
    next
      case nc: False
      show ?thesis
      proof (cases "move fs1 p f")
        case (Inl e)
        with False Inr f nc fin1 show ?thesis by (simp add: move_or_copy_def do_call_def)
      next
        case fs2: (Inr fs2)
        from move_finite [OF fs2 fin1] False Inr f nc fs2 show ?thesis
          by (simp add: move_or_copy_def do_call_def)
      qed
    qed
  qed
qed

lemma put_log_simps:
  "w_fs (put_log w l) = w_fs w" "w_calls (put_log w l) = w_calls w"
  "w_log (put_log w l) = w_log w @ [l]"
  by (simp_all add: put_log_def)

subsection \<open>A simulated run changes nothing\<close>

lemma move_or_copy_dry_same:
  "dry_run opt \<Longrightarrow> move_or_copy opt p td w = Some (r, w') \<Longrightarrow> w' = w"
  by (auto simp: move_or_copy_dry split: option.splits)


text \<open>How the processing of a pair goes, with the date of the master and the folder
  name named.\<close>

lemma process_pair_skip:
  assumes "(if is_image_file master then get_image_datetime (w_fs w) master else (None, None))
             = (dt, source)"
    and "dt = None \<and> \<not> include_unknown opt"
  shows "process_pair opt src (master, videos) w
     = (case relative_to master src of
          Inl e \<Rightarrow> Some (Inl e, w)
        | Inr rel \<Rightarrow>
            Some (Inr (), put_log w (''Skipping (no date found): '' @ str_path rel
                    @ '' (+ '' @ str_nat (length videos) @ '' video)'')))"
  using assms by (simp add: process_pair_def)

lemma process_pair_run:
  assumes ds: "(if is_image_file master then get_image_datetime (w_fs w) master else (None, None))
             = (dt, source)"
    and dn: "dn = (case dt of Some d \<Rightarrow> build_target_dirname d | None \<Rightarrow> UNKNOWN_DIR_NAME)"
    and go: "\<not> (dt = None \<and> \<not> include_unknown opt)"
    and run: "process_pair opt src (master, videos) w = Some (r, w')"
  shows "\<exists>r1 w1. move_or_copy opt master (join src dn) w = Some (r1, w1)
           \<and> (case r1 of
                 Inl e \<Rightarrow> r = Inl e \<and> w' = w1
               | Inr fm \<Rightarrow>
                   (case relative_to master src of
                      Inl e \<Rightarrow> r = Inl e \<and> w' = w1
                    | Inr rel \<Rightarrow>
                        videos_loop opt src dn videos
                          (put_log w1 (outcome_line (action_of opt) rel dn fm (src_label_of source)))
                          = Some (r, w')))"
proof -
  from run ds go have run':
    "(case move_or_copy opt master (join src dn) w of
        None \<Rightarrow> None
      | Some (Inl e, w1) \<Rightarrow> Some (Inl e, w1)
      | Some (Inr final_master, w1) \<Rightarrow>
          (case relative_to master src of
             Inl e \<Rightarrow> Some (Inl e, w1)
           | Inr rel \<Rightarrow>
               videos_loop opt src dn videos
                 (put_log w1 (outcome_line (action_of opt) rel dn final_master
                    (src_label_of source))))) = Some (r, w')"
    unfolding dn by (simp add: process_pair_def Let_def)
  then obtain r1 w1 where m: "move_or_copy opt master (join src dn) w = Some (r1, w1)"
    by (cases "move_or_copy opt master (join src dn) w") auto
  show ?thesis
  proof (cases r1)
    case (Inl e)
    with run' m show ?thesis by simp
  next
    case (Inr fm)
    with run' m show ?thesis by (cases "relative_to master src") simp_all
  qed
qed








subsection \<open>In a finite file system every step returns\<close>

lemma videos_loop_returns:
  "finite (dom (w_fs w)) \<Longrightarrow>
     \<exists>r w'. videos_loop opt src dn vs w = Some (r, w') \<and> finite (dom (w_fs w'))"
proof (induction vs arbitrary: w)
  case Nil
  then show ?case by simp
next
  case (Cons v vs)
  from move_or_copy_returns [OF Cons.prems] obtain r1 w1 where
    m: "move_or_copy opt v (join src dn) w = Some (r1, w1)" and fin: "finite (dom (w_fs w1))"
    by blast
  show ?case
  proof (cases r1)
    case (Inl e)
    with m fin show ?thesis by simp
  next
    case (Inr f)
    show ?thesis
    proof (cases "relative_to v src")
      case (Inl e)
      with m fin Inr show ?thesis by simp
    next
      case rel: (Inr rel)
      let ?w2 = "put_log w1 (outcome_line (action_of opt) rel dn f '' (paired with photo)'')"
      from fin have "finite (dom (w_fs ?w2))" by (simp add: put_log_simps)
      from Cons.IH [OF this] m Inr rel show ?thesis by simp
    qed
  qed
qed

lemma process_pair_go:
  assumes ds: "(if is_image_file master then get_image_datetime (w_fs w) master else (None, None))
             = (dt, source)"
    and dn: "dn = (case dt of Some d \<Rightarrow> build_target_dirname d | None \<Rightarrow> UNKNOWN_DIR_NAME)"
    and go: "\<not> (dt = None \<and> \<not> include_unknown opt)"
  shows "process_pair opt src (master, videos) w =
      (case move_or_copy opt master (join src dn) w of
        None \<Rightarrow> None
      | Some (Inl e, w1) \<Rightarrow> Some (Inl e, w1)
      | Some (Inr final_master, w1) \<Rightarrow>
          (case relative_to master src of
             Inl e \<Rightarrow> Some (Inl e, w1)
           | Inr rel \<Rightarrow>
               videos_loop opt src dn videos
                 (put_log w1 (outcome_line (action_of opt) rel dn final_master
                    (src_label_of source)))))"
proof (cases dt)
  case None
  with go have inc: "include_unknown opt" by simp
  show ?thesis unfolding process_pair_def dn None option.case
    by (simp add: ds [unfolded None] inc Let_def cong: option.case_cong sum.case_cong prod.case_cong)
next
  case (Some d)
  show ?thesis unfolding process_pair_def dn Some option.case
    by (simp add: ds [unfolded Some] Let_def cong: option.case_cong sum.case_cong prod.case_cong)
qed

lemma process_pair_returns:
  assumes "finite (dom (w_fs w))"
  shows "\<exists>r w'. process_pair opt src pr w = Some (r, w') \<and> finite (dom (w_fs w'))"
proof -
  obtain master videos where pr: "pr = (master, videos)" by (cases pr)
  obtain dt source where ds: "(if is_image_file master then get_image_datetime (w_fs w) master
      else (None, None)) = (dt, source)" by (cases "if is_image_file master then get_image_datetime (w_fs w) master
      else (None, None)")
  show ?thesis
  proof (cases "dt = None \<and> \<not> include_unknown opt")
    case True
    show ?thesis unfolding pr process_pair_skip [OF ds True]
      using assms by (cases "relative_to master src") (simp_all add: put_log_simps)
  next
    case False
    define dn where "dn = (case dt of Some d \<Rightarrow> build_target_dirname d | None \<Rightarrow> UNKNOWN_DIR_NAME)"
    note unf = process_pair_go [OF ds dn_def False]
    from move_or_copy_returns [OF assms] obtain r1 w1 where
      m: "move_or_copy opt master (join src dn) w = Some (r1, w1)" and fin: "finite (dom (w_fs w1))"
      by blast
    show ?thesis
    proof (cases r1)
      case (Inl e)
      with m fin show ?thesis unfolding pr unf by simp
    next
      case (Inr fm)
      show ?thesis
      proof (cases "relative_to master src")
        case (Inl e)
        with m fin Inr show ?thesis unfolding pr unf by simp
      next
        case rel: (Inr rel)
        let ?w2 = "put_log w1 (outcome_line (action_of opt) rel dn fm (src_label_of source))"
        from fin have "finite (dom (w_fs ?w2))" by (simp add: put_log_simps)
        from videos_loop_returns [OF this] m Inr rel show ?thesis unfolding pr unf by simp
      qed
    qed
  qed
qed






subsection \<open>Simulated and real relocations\<close>









subsection \<open>Pairs\<close>

lemma into_folder_mono:
  "set files \<subseteq> set files' \<Longrightarrow> into_folder td files c \<Longrightarrow> into_folder td files' c"
  by (cases c) auto

lemma move_or_copy_into_folder:
  assumes "name p \<noteq> []" and "move_or_copy opt p td w = Some (r, w')"
  shows "\<exists>new. w_calls w' = w_calls w @ new \<and> list_all (into_folder td [p]) new"
proof -
  from move_or_copy_calls [OF assms] obtain new where
    new: "w_calls w' = w_calls w @ new"
    and all: "list_all (\<lambda>c. c = Mkdir td \<or> (\<exists>d. (c = Copy2 p d \<or> c = Move p d) \<and> parent d = td)) new"
    by blast
  have "list_all (into_folder td [p]) new"
    using all by (auto simp: list_all_iff)
  with new show ?thesis by blast
qed

lemma videos_loop_calls:
  "list_all (\<lambda>v. name v \<noteq> []) vs \<Longrightarrow> videos_loop opt src dn vs w = Some (r, w') \<Longrightarrow>
     \<exists>new. w_calls w' = w_calls w @ new \<and> list_all (into_folder (join src dn) vs) new"
proof (induction vs arbitrary: w)
  case Nil
  then show ?case by simp
next
  case (Cons v vs)
  from Cons.prems(1) have nv: "name v \<noteq> []" and nvs: "list_all (\<lambda>v. name v \<noteq> []) vs" by simp_all
  from Cons.prems(2) obtain r1 w1 where m: "move_or_copy opt v (join src dn) w = Some (r1, w1)"
    by (cases "move_or_copy opt v (join src dn) w") auto
  from move_or_copy_into_folder [OF nv m] obtain new1 where
    n1: "w_calls w1 = w_calls w @ new1" and a1: "list_all (into_folder (join src dn) [v]) new1"
    by blast
  have a1': "list_all (into_folder (join src dn) (v # vs)) new1"
    using a1 by (auto simp: list_all_iff intro: into_folder_mono [of "[v]"])
  show ?case
  proof (cases r1)
    case (Inl e)
    with Cons.prems(2) m have "w' = w1" by simp
    with n1 a1' show ?thesis by blast
  next
    case (Inr f)
    show ?thesis
    proof (cases "relative_to v src")
      case (Inl e)
      with Cons.prems(2) m Inr have "w' = w1" by simp
      with n1 a1' show ?thesis by blast
    next
      case rel: (Inr rel)
      let ?w2 = "put_log w1 (outcome_line (action_of opt) rel dn f '' (paired with photo)'')"
      from Cons.prems(2) m Inr rel have "videos_loop opt src dn vs ?w2 = Some (r, w')" by simp
      from Cons.IH [OF nvs this] obtain new2 where
        n2: "w_calls w' = w_calls ?w2 @ new2" and a2: "list_all (into_folder (join src dn) vs) new2"
        by blast
      have a2': "list_all (into_folder (join src dn) (v # vs)) new2"
        using a2 by (auto simp: list_all_iff intro: into_folder_mono [of vs])
      from n1 n2 have "w_calls w' = w_calls w @ (new1 @ new2)" by (simp add: put_log_simps)
      moreover from a1' a2' have "list_all (into_folder (join src dn) (v # vs)) (new1 @ new2)" by simp
      ultimately show ?thesis by blast
    qed
  qed
qed


lemma pair_calls_into_folder:
  assumes img: "is_image_file master" and vids: "list_all is_video_file videos"
    and run: "process_pair opt src (master, videos) w = Some (r, w')"
  shows "case fst (get_image_datetime (w_fs w) master) of
           None \<Rightarrow>
             if include_unknown opt then
               (\<exists>new. w_calls w' = w_calls w @ new
                  \<and> list_all (into_folder (join src UNKNOWN_DIR_NAME) (master # videos)) new)
             else
               w_fs w' = w_fs w \<and> w_calls w' = w_calls w
               \<and> (case relative_to master src of
                     Inl e \<Rightarrow> r = Inl e \<and> w_log w' = w_log w
                   | Inr rel \<Rightarrow>
                       r = Inr ()
                       \<and> w_log w' = w_log w @ [''Skipping (no date found): '' @ str_path rel
                            @ '' (+ '' @ str_nat (length videos) @ '' video)''])
         | Some d \<Rightarrow>
             (\<exists>new. w_calls w' = w_calls w @ new
                \<and> list_all (into_folder (join src (build_target_dirname d)) (master # videos)) new)"
proof -
  obtain dt source where g: "get_image_datetime (w_fs w) master = (dt, source)"
    by (cases "get_image_datetime (w_fs w) master")
  with img have ds: "(if is_image_file master then get_image_datetime (w_fs w) master
      else (None, None)) = (dt, source)" by simp
  define dn where "dn = (case dt of Some d \<Rightarrow> build_target_dirname d | None \<Rightarrow> UNKNOWN_DIR_NAME)"
  have moved: "\<exists>new. w_calls w' = w_calls w @ new
                \<and> list_all (into_folder (join src dn) (master # videos)) new"
    if go: "\<not> (dt = None \<and> \<not> include_unknown opt)"
  proof -
    from process_pair_run [OF ds dn_def go run] obtain r1 w1 where
      m: "move_or_copy opt master (join src dn) w = Some (r1, w1)"
      and rest: "case r1 of
                 Inl e \<Rightarrow> r = Inl e \<and> w' = w1
               | Inr fm \<Rightarrow>
                   (case relative_to master src of
                      Inl e \<Rightarrow> r = Inl e \<and> w' = w1
                    | Inr rel \<Rightarrow>
                        videos_loop opt src dn videos
                          (put_log w1 (outcome_line (action_of opt) rel dn fm (src_label_of source)))
                          = Some (r, w'))" by blast
    from move_or_copy_into_folder [OF image_name_nonempty [OF img] m] obtain new1 where
      n1: "w_calls w1 = w_calls w @ new1" and a1: "list_all (into_folder (join src dn) [master]) new1"
      by blast
    have a1': "list_all (into_folder (join src dn) (master # videos)) new1"
      using a1 by (auto simp: list_all_iff intro: into_folder_mono [of "[master]"])
    show ?thesis
    proof (cases r1)
      case (Inl e)
      with rest have "w' = w1" by simp
      with n1 a1' show ?thesis by blast
    next
      case (Inr fm)
      show ?thesis
      proof (cases "relative_to master src")
        case (Inl e)
        with rest Inr have "w' = w1" by simp
        with n1 a1' show ?thesis by blast
      next
        case rel: (Inr rel)
        let ?w2 = "put_log w1 (outcome_line (action_of opt) rel dn fm (src_label_of source))"
        from rest Inr rel have v: "videos_loop opt src dn videos ?w2 = Some (r, w')" by simp
        have names: "list_all (\<lambda>v. name v \<noteq> []) videos"
          using vids video_name_nonempty by (auto simp: list_all_iff)
        from videos_loop_calls [OF names v] obtain new2 where
          n2: "w_calls w' = w_calls ?w2 @ new2"
          and a2: "list_all (into_folder (join src dn) videos) new2" by blast
        have a2': "list_all (into_folder (join src dn) (master # videos)) new2"
          using a2 by (auto simp: list_all_iff intro: into_folder_mono [of videos])
        from n1 n2 have "w_calls w' = w_calls w @ (new1 @ new2)" by (simp add: put_log_simps)
        moreover from a1' a2'
        have "list_all (into_folder (join src dn) (master # videos)) (new1 @ new2)" by simp
        ultimately show ?thesis by blast
      qed
    qed
  qed
  show ?thesis
  proof (cases dt)
    case (Some d)
    with moved dn_def g show ?thesis by simp
  next
    case None
    show ?thesis
    proof (cases "include_unknown opt")
      case True
      with moved None dn_def g show ?thesis by simp
    next
      case False
      with None have skip: "dt = None \<and> \<not> include_unknown opt" by simp
      from run have "(case relative_to master src of
          Inl e \<Rightarrow> Some (Inl e, w)
        | Inr rel \<Rightarrow>
            Some (Inr (), put_log w (''Skipping (no date found): '' @ str_path rel
                    @ '' (+ '' @ str_nat (length videos) @ '' video)''))) = Some (r, w')"
        unfolding process_pair_skip [OF ds skip] .
      then have "w_fs w' = w_fs w \<and> w_calls w' = w_calls w
               \<and> (case relative_to master src of
                     Inl e \<Rightarrow> r = Inl e \<and> w_log w' = w_log w
                   | Inr rel \<Rightarrow>
                       r = Inr ()
                       \<and> w_log w' = w_log w @ [''Skipping (no date found): '' @ str_path rel
                            @ '' (+ '' @ str_nat (length videos) @ '' video)''])"
        by (cases "relative_to master src") (auto simp: put_log_simps)
      with None False g show ?thesis by simp
    qed
  qed
qed

lemma get_image_datetime_local:
  assumes "fs' p = fs p"
  shows "get_image_datetime fs' p = get_image_datetime fs p"
proof -
  have "image_exif fs' p = image_exif fs p" and "stat_mtime fs' p = stat_mtime fs p"
    using assms by (simp_all add: image_exif_def stat_mtime_def)
  then show ?thesis unfolding get_image_datetime_def by (simp only:)
qed

lemma dict_set_set:
  "kv \<in> set (dict_set d k v) \<Longrightarrow> kv = (k, v) \<or> kv \<in> set d"
  by (induction d) (auto split: if_splits)

lemma dict_get_list_set:
  "x \<in> set (dict_get_list d k) \<Longrightarrow> \<exists>vs. (k, vs) \<in> set d \<and> x \<in> set vs"
proof -
  assume x: "x \<in> set (dict_get_list d k)"
  then obtain vs where m: "map_of d k = Some vs" and "x \<in> set vs"
    by (cases "map_of d k") (auto simp: dict_get_list_def)
  from map_of_SomeD [OF m] \<open>x \<in> set vs\<close> show ?thesis by blast
qed

lemma sorted_paths_set: "set (sorted_paths ps) = set ps"
  by (simp add: sorted_paths_def)

text \<open>Every key of the dictionary of pairs is an image and every value a list of videos.\<close>

lemma bucket_step_kinds:
  assumes "\<forall>(m, vs) \<in> set (fst acc). is_image_file m \<and> list_all is_video_file vs"
  shows "\<forall>(m, vs) \<in> set (fst (bucket_step acc items)). is_image_file m \<and> list_all is_video_file vs"
proof -
  obtain pairs singles where acc: "acc = (pairs, singles)" by (cases acc)
  let ?images = "filter is_image_file items"
  let ?videos = "filter is_video_file items"
  show ?thesis
  proof (cases "?images \<noteq> [] \<and> ?videos \<noteq> []")
    case False
    with assms acc show ?thesis by (auto simp: bucket_step_def Let_def)
  next
    case True
    let ?master = "hd (sorted_paths ?images)"
    let ?new = "dict_get_list pairs ?master @ sorted_paths ?videos"
    from True have "sorted_paths ?images \<noteq> []"
      using sorted_paths_set [of ?images] by (metis set_empty)
    then have "?master \<in> set (sorted_paths ?images)" by (rule hd_in_set)
    then have m: "is_image_file ?master" by (simp add: sorted_paths_set)
    have old: "list_all is_video_file (dict_get_list pairs ?master)"
      unfolding list_all_iff
    proof
      fix x assume "x \<in> set (dict_get_list pairs ?master)"
      from dict_get_list_set [OF this] obtain vs where "(?master, vs) \<in> set pairs" "x \<in> set vs"
        by blast
      with assms acc show "is_video_file x" by (auto simp: list_all_iff)
    qed
    have "list_all is_video_file (sorted_paths ?videos)"
      by (simp add: list_all_iff sorted_paths_set)
    with old have v: "list_all is_video_file ?new" by simp
    from True acc have step: "fst (bucket_step acc items) = dict_set pairs ?master ?new"
      by (simp add: bucket_step_def Let_def)
    show ?thesis unfolding step
    proof (intro ballI)
      fix kv assume "kv \<in> set (dict_set pairs ?master ?new)"
      from dict_set_set [OF this] m v assms acc
      show "case kv of (m, vs) \<Rightarrow> is_image_file m \<and> list_all is_video_file vs" by auto
    qed
  qed
qed

lemma foldl_bucket_step_kinds:
  "\<forall>(m, vs) \<in> set (fst acc). is_image_file m \<and> list_all is_video_file vs \<Longrightarrow>
   \<forall>(m, vs) \<in> set (fst (foldl bucket_step acc bs)). is_image_file m \<and> list_all is_video_file vs"
proof (induction bs arbitrary: acc)
  case Nil
  then show ?case by simp
next
  case (Cons b bs)
  from bucket_step_kinds [OF Cons.prems] have
    "\<forall>(m, vs) \<in> set (fst (bucket_step acc b)). is_image_file m \<and> list_all is_video_file vs" .
  from Cons.IH [OF this] show ?case by simp
qed

lemma pair_live_photos_kinds:
  assumes "pair_live_photos files = (pairs, singles)" and "(m, vs) \<in> set pairs"
  shows "is_image_file m \<and> list_all is_video_file vs"
proof -
  let ?acc = "foldl bucket_step ([], [])
      (concat (map (\<lambda>(par, stems). map snd stems) (foldl bucket_add [] files)))"
  from assms(1) have p: "pairs = fst ?acc" by (simp add: pair_live_photos_def Let_def)
  have "\<forall>(m, vs) \<in> set (fst ?acc). is_image_file m \<and> list_all is_video_file vs"
    by (rule foldl_bucket_step_kinds) simp
  with assms(2) p show ?thesis by auto
qed

text \<open>No file of a pair is among the singles.\<close>

lemma pair_live_photos_disjoint:
  assumes "pair_live_photos files = (pairs, singles)" and "(m, vs) \<in> set pairs"
  shows "m \<notin> set singles \<and> list_all (\<lambda>v. v \<notin> set singles) vs"
proof -
  let ?in_pairs = "concat (map (\<lambda>(master, vids). master # vids) pairs)"
  from assms(1) obtain ss where s: "singles = filter (\<lambda>p. p \<notin> set ?in_pairs) ss"
    by (auto simp: pair_live_photos_def Let_def)
  from assms(2) have "m # vs \<in> set (map (\<lambda>(master, vids). master # vids) pairs)"
    by force
  then have sub: "set (m # vs) \<subseteq> set ?in_pairs"
    unfolding set_concat by blast
  have "\<And>x. x \<in> set (m # vs) \<Longrightarrow> x \<notin> set singles"
  proof -
    fix x assume "x \<in> set (m # vs)"
    with sub have "x \<in> set ?in_pairs" by blast
    then show "x \<notin> set singles" unfolding s by (simp only: set_filter mem_Collect_eq) blast
  qed
  then show ?thesis by (simp add: list_all_iff)
qed

lemma exec_calls_append:
  "exec_calls fs a = Inr fs1 \<Longrightarrow> exec_calls fs (a @ b) = exec_calls fs1 b"
  by (induction a arbitrary: fs) (auto split: sum.splits)

lemma move_or_copy_sent:
  assumes nm: "name p \<noteq> []" and run: "move_or_copy opt p td w = Some (Inr f, w')"
  shows "parent f = td \<and> w_log w' = w_log w
         \<and> w_calls w' = w_calls w @ relocation opt td p f
         \<and> exec_calls (w_fs w) (relocation opt td p f) = Inr (w_fs w')"
proof (cases "dry_run opt")
  case True
  from move_or_copy_dry_same [OF True run] have "w' = w" .
  with True move_or_copy_dest [OF nm run] show ?thesis by (simp add: relocation_def)
next
  case False
  from move_or_copy_real [OF False run] obtain fs1 f' where
    mk: "mkdir_parents (w_fs w) td = Inr fs1"
    and lg: "w_log w' = w_log w"
    and cl: "w_calls w' = w_calls w @ [Mkdir td, if copy_mode opt then Copy2 p f' else Move p f']"
    and r: "case (if copy_mode opt then copy2 fs1 p f' else move fs1 p f') of
              Inl e \<Rightarrow> Inr f = Inl e \<and> w_fs w' = fs1
            | Inr fs2 \<Rightarrow> (Inr f :: error + path) = Inr f' \<and> w_fs w' = fs2"
    by auto
  from r have ff: "f' = f"
    and ex: "(if copy_mode opt then copy2 fs1 p f' else move fs1 p f') = Inr (w_fs w')"
    by (auto split: sum.splits)
  from mk ex ff have "exec_calls (w_fs w) (relocation opt td p f) = Inr (w_fs w')"
    using False by (cases "copy_mode opt") (simp_all add: relocation_def)
  moreover from cl ff False have "w_calls w' = w_calls w @ relocation opt td p f"
    by (simp add: relocation_def)
  ultimately show ?thesis using lg move_or_copy_dest [OF nm run] by simp
qed

lemma videos_loop_sent:
  "list_all (\<lambda>v. name v \<noteq> []) vs \<Longrightarrow> videos_loop opt src dn vs w = Some (Inr (), w') \<Longrightarrow>
     \<exists>fvs lvs. length fvs = length vs
        \<and> list_all (\<lambda>f. parent f = join src dn) fvs
        \<and> w_calls w' = w_calls w @ relocations opt (join src dn) vs fvs
        \<and> exec_calls (w_fs w) (relocations opt (join src dn) vs fvs) = Inr (w_fs w')
        \<and> w_log w' = w_log w @ lvs
        \<and> companion_lines opt src dn vs fvs lvs"
proof (induction vs arbitrary: w)
  case Nil
  then have "w' = w" by simp
  then show ?case by (intro exI [of _ "[]"]) simp
next
  case (Cons v vs)
  from Cons.prems(1) have nv: "name v \<noteq> []" and nvs: "list_all (\<lambda>v. name v \<noteq> []) vs" by simp_all
  from Cons.prems(2) obtain r1 w1 where m: "move_or_copy opt v (join src dn) w = Some (r1, w1)"
    by (cases "move_or_copy opt v (join src dn) w") auto
  from Cons.prems(2) m obtain f where r1: "r1 = Inr f" by (cases r1) auto
  from Cons.prems(2) m r1 obtain rel where rel: "relative_to v src = Inr rel"
    by (cases "relative_to v src") auto
  let ?l = "outcome_line (action_of opt) rel dn f '' (paired with photo)''"
  from Cons.prems(2) m r1 rel have rest: "videos_loop opt src dn vs (put_log w1 ?l) = Some (Inr (), w')"
    by simp
  from move_or_copy_sent [OF nv m [unfolded r1]] have
    p1: "parent f = join src dn" and l1: "w_log w1 = w_log w"
    and c1: "w_calls w1 = w_calls w @ relocation opt (join src dn) v f"
    and e1: "exec_calls (w_fs w) (relocation opt (join src dn) v f) = Inr (w_fs w1)"
    by simp_all
  from Cons.IH [OF nvs rest] obtain fvs lvs where
    len: "length fvs = length vs"
    and par: "list_all (\<lambda>f. parent f = join src dn) fvs"
    and c2: "w_calls w' = w_calls (put_log w1 ?l) @ relocations opt (join src dn) vs fvs"
    and e2: "exec_calls (w_fs (put_log w1 ?l)) (relocations opt (join src dn) vs fvs) = Inr (w_fs w')"
    and l2: "w_log w' = w_log (put_log w1 ?l) @ lvs"
    and cl: "companion_lines opt src dn vs fvs lvs" by blast
  have line: "relocated_line opt src dn '' (paired with photo)'' v f ?l"
    unfolding relocated_line_def rel by simp
  have "length (f # fvs) = length (v # vs)" using len by simp
  moreover have "list_all (\<lambda>f. parent f = join src dn) (f # fvs)" using p1 par by simp
  moreover have "w_calls w' = w_calls w @ relocations opt (join src dn) (v # vs) (f # fvs)"
    using c1 c2 by (simp add: put_log_simps)
  moreover have "exec_calls (w_fs w) (relocations opt (join src dn) (v # vs) (f # fvs)) = Inr (w_fs w')"
    using exec_calls_append [OF e1] e2 by (simp add: put_log_simps)
  moreover have "w_log w' = w_log w @ (?l # lvs)" using l1 l2 by (simp add: put_log_simps)
  moreover have "companion_lines opt src dn (v # vs) (f # fvs) (?l # lvs)" using line cl by simp
  ultimately show ?case by blast
qed

text \<open>A pair that is processed to its end: the master and each of its videos, in order,
  go to a path directly in the folder named after the date of the master.\<close>

lemma pair_sent_together:
  assumes img: "is_image_file master" and vids: "list_all is_video_file videos"
    and run: "process_pair opt src (master, videos) w = Some (Inr (), w')"
    and go: "\<not> (fst (get_image_datetime (w_fs w) master) = None \<and> \<not> include_unknown opt)"
  shows "\<exists>fm fvs lm lvs.
           length fvs = length videos
           \<and> list_all (\<lambda>f. parent f = join src (dirname_of (fst (get_image_datetime (w_fs w) master))))
                (fm # fvs)
           \<and> w_calls w' = w_calls w
               @ relocations opt (join src (dirname_of (fst (get_image_datetime (w_fs w) master))))
                   (master # videos) (fm # fvs)
           \<and> exec_calls (w_fs w)
                 (relocations opt (join src (dirname_of (fst (get_image_datetime (w_fs w) master))))
                    (master # videos) (fm # fvs)) = Inr (w_fs w')
           \<and> w_log w' = w_log w @ lm # lvs
           \<and> relocated_line opt src (dirname_of (fst (get_image_datetime (w_fs w) master)))
                 (src_label_of (snd (get_image_datetime (w_fs w) master))) master fm lm
           \<and> companion_lines opt src (dirname_of (fst (get_image_datetime (w_fs w) master)))
                 videos fvs lvs"
proof -
  obtain dt source where g: "get_image_datetime (w_fs w) master = (dt, source)"
    by (cases "get_image_datetime (w_fs w) master")
  with img have ds: "(if is_image_file master then get_image_datetime (w_fs w) master
      else (None, None)) = (dt, source)" by simp
  define dn where "dn = dirname_of dt"
  then have dn': "dn = (case dt of Some d \<Rightarrow> build_target_dirname d | None \<Rightarrow> UNKNOWN_DIR_NAME)"
    by (simp add: dirname_of_def)
  from go g have go': "\<not> (dt = None \<and> \<not> include_unknown opt)" by simp
  from process_pair_run [OF ds dn' go' run] obtain r1 w1 where
    m: "move_or_copy opt master (join src dn) w = Some (r1, w1)"
    and rest: "case r1 of
               Inl e \<Rightarrow> (Inr () :: error + unit) = Inl e \<and> w' = w1
             | Inr fm \<Rightarrow>
                 (case relative_to master src of
                    Inl e \<Rightarrow> (Inr () :: error + unit) = Inl e \<and> w' = w1
                  | Inr rel \<Rightarrow>
                      videos_loop opt src dn videos
                        (put_log w1 (outcome_line (action_of opt) rel dn fm (src_label_of source)))
                        = Some (Inr (), w'))" by blast
  from rest obtain fm where r1: "r1 = Inr fm" by (cases r1) auto
  from rest r1 obtain rel where rel: "relative_to master src = Inr rel"
    by (cases "relative_to master src") auto
  let ?lm = "outcome_line (action_of opt) rel dn fm (src_label_of source)"
  from rest r1 rel have v: "videos_loop opt src dn videos (put_log w1 ?lm) = Some (Inr (), w')"
    by simp
  from move_or_copy_sent [OF image_name_nonempty [OF img] m [unfolded r1]] have
    p1: "parent fm = join src dn" and l1: "w_log w1 = w_log w"
    and c1: "w_calls w1 = w_calls w @ relocation opt (join src dn) master fm"
    and e1: "exec_calls (w_fs w) (relocation opt (join src dn) master fm) = Inr (w_fs w1)"
    by simp_all
  have names: "list_all (\<lambda>v. name v \<noteq> []) videos"
    using vids video_name_nonempty by (auto simp: list_all_iff)
  from videos_loop_sent [OF names v] obtain fvs lvs where
    len: "length fvs = length videos"
    and par: "list_all (\<lambda>f. parent f = join src dn) fvs"
    and c2: "w_calls w' = w_calls (put_log w1 ?lm) @ relocations opt (join src dn) videos fvs"
    and e2: "exec_calls (w_fs (put_log w1 ?lm)) (relocations opt (join src dn) videos fvs) = Inr (w_fs w')"
    and l2: "w_log w' = w_log (put_log w1 ?lm) @ lvs"
    and cl: "companion_lines opt src dn videos fvs lvs" by blast
  have line: "relocated_line opt src dn (src_label_of source) master fm ?lm"
    unfolding relocated_line_def rel by simp
  have "list_all (\<lambda>f. parent f = join src dn) (fm # fvs)" using p1 par by simp
  moreover have "w_calls w' = w_calls w @ relocations opt (join src dn) (master # videos) (fm # fvs)"
    using c1 c2 by (simp add: put_log_simps)
  moreover have "exec_calls (w_fs w) (relocations opt (join src dn) (master # videos) (fm # fvs))
      = Inr (w_fs w')"
    using exec_calls_append [OF e1] e2 by (simp add: put_log_simps)
  moreover have "w_log w' = w_log w @ ?lm # lvs" using l1 l2 by (simp add: put_log_simps)
  ultimately have "length fvs = length videos
           \<and> list_all (\<lambda>f. parent f = join src dn) (fm # fvs)
           \<and> w_calls w' = w_calls w @ relocations opt (join src dn) (master # videos) (fm # fvs)
           \<and> exec_calls (w_fs w) (relocations opt (join src dn) (master # videos) (fm # fvs))
               = Inr (w_fs w')
           \<and> w_log w' = w_log w @ ?lm # lvs
           \<and> relocated_line opt src dn (src_label_of source) master fm ?lm
           \<and> companion_lines opt src dn videos fvs lvs"
    using len line cl by simp
  then show ?thesis unfolding g fst_conv snd_conv dn_def by blast
qed

text \<open>
  Claim C4. The date of a pair is the date of its master image, resolved from the file
  system as it is before the pair is processed, and nothing but it chooses the folder:
  every call the processing of the pair makes is the creation of the folder named after
  that date (the folder for undated files when there is no date and they are included),
  or a copy or move of the master or of one of its videos to a path directly in that
  folder. When the master has no date and undated files are excluded, the pair is skipped
  as a whole: the file system is unchanged, no call is made, and one line names the
  master and the number of its videos. When the pair is not skipped and its processing
  ends without an exception, the master and every one of its videos have been sent to
  that folder: there is one destination for each of them, directly in the folder; the
  calls made are exactly, for the master and then for each video in order, the creation
  of the folder and the copy or the move of the file to its destination (no call in a
  simulated run); the file system is what these calls make of it; and the lines logged
  are exactly one line for the master, with the label of the source of its date, and one
  line for each video, each naming the folder and the name of the destination. The date
  read for the master depends on the entry of the master alone: file systems that agree
  at the master, whatever the metadata and the modification times of its videos, give
  the same date. What the grouper returns as a pair is an image with videos, and no file
  of a pair is among the files processed one by one, so that no video of a pair is
  relocated on its own.
\<close>

theorem pair_follows_master:
  assumes img: "is_image_file master" and vids: "list_all is_video_file videos"
    and run: "process_pair opt src (master, videos) w = Some (r, w')"
  shows "(case fst (get_image_datetime (w_fs w) master) of
           None \<Rightarrow>
             if include_unknown opt then
               (\<exists>new. w_calls w' = w_calls w @ new
                  \<and> list_all (into_folder (join src UNKNOWN_DIR_NAME) (master # videos)) new)
             else
               w_fs w' = w_fs w \<and> w_calls w' = w_calls w
               \<and> (case relative_to master src of
                     Inl e \<Rightarrow> r = Inl e \<and> w_log w' = w_log w
                   | Inr rel \<Rightarrow>
                       r = Inr ()
                       \<and> w_log w' = w_log w @ [''Skipping (no date found): '' @ str_path rel
                            @ '' (+ '' @ str_nat (length videos) @ '' video)''])
         | Some d \<Rightarrow>
             (\<exists>new. w_calls w' = w_calls w @ new
                \<and> list_all (into_folder (join src (build_target_dirname d)) (master # videos)) new))
         \<and> (r = Inr ()
              \<and> \<not> (fst (get_image_datetime (w_fs w) master) = None \<and> \<not> include_unknown opt)
            \<longrightarrow> (\<exists>fm fvs lm lvs.
                   length fvs = length videos
                   \<and> list_all (\<lambda>f. parent f
                          = join src (dirname_of (fst (get_image_datetime (w_fs w) master))))
                        (fm # fvs)
                   \<and> w_calls w' = w_calls w
                       @ relocations opt
                           (join src (dirname_of (fst (get_image_datetime (w_fs w) master))))
                           (master # videos) (fm # fvs)
                   \<and> exec_calls (w_fs w)
                         (relocations opt
                            (join src (dirname_of (fst (get_image_datetime (w_fs w) master))))
                            (master # videos) (fm # fvs)) = Inr (w_fs w')
                   \<and> w_log w' = w_log w @ lm # lvs
                   \<and> relocated_line opt src
                         (dirname_of (fst (get_image_datetime (w_fs w) master)))
                         (src_label_of (snd (get_image_datetime (w_fs w) master))) master fm lm
                   \<and> companion_lines opt src
                         (dirname_of (fst (get_image_datetime (w_fs w) master))) videos fvs lvs))
         \<and> (\<forall>fs'. fs' master = w_fs w master
               \<longrightarrow> get_image_datetime fs' master = get_image_datetime (w_fs w) master)
         \<and> (\<forall>files prs singles m vs.
               pair_live_photos files = (prs, singles) \<and> (m, vs) \<in> set prs
               \<longrightarrow> is_image_file m \<and> list_all is_video_file vs
                   \<and> m \<notin> set singles \<and> list_all (\<lambda>v. v \<notin> set singles) vs)"
proof (intro conjI impI)
  show "\<forall>fs'. fs' master = w_fs w master
          \<longrightarrow> get_image_datetime fs' master = get_image_datetime (w_fs w) master"
    using get_image_datetime_local by blast
  show "\<forall>files prs singles m vs.
          pair_live_photos files = (prs, singles) \<and> (m, vs) \<in> set prs
          \<longrightarrow> is_image_file m \<and> list_all is_video_file vs
              \<and> m \<notin> set singles \<and> list_all (\<lambda>v. v \<notin> set singles) vs"
    using pair_live_photos_kinds pair_live_photos_disjoint by blast
next
  assume ok: "r = Inr ()
      \<and> \<not> (fst (get_image_datetime (w_fs w) master) = None \<and> \<not> include_unknown opt)"
  then have run': "process_pair opt src (master, videos) w = Some (Inr (), w')"
    using run by simp
  from ok have go: "\<not> (fst (get_image_datetime (w_fs w) master) = None \<and> \<not> include_unknown opt)"
    by (rule conjunct2)
  show "\<exists>fm fvs lm lvs.
           length fvs = length videos
           \<and> list_all (\<lambda>f. parent f = join src (dirname_of (fst (get_image_datetime (w_fs w) master))))
                (fm # fvs)
           \<and> w_calls w' = w_calls w
               @ relocations opt (join src (dirname_of (fst (get_image_datetime (w_fs w) master))))
                   (master # videos) (fm # fvs)
           \<and> exec_calls (w_fs w)
                 (relocations opt (join src (dirname_of (fst (get_image_datetime (w_fs w) master))))
                    (master # videos) (fm # fvs)) = Inr (w_fs w')
           \<and> w_log w' = w_log w @ lm # lvs
           \<and> relocated_line opt src (dirname_of (fst (get_image_datetime (w_fs w) master)))
                 (src_label_of (snd (get_image_datetime (w_fs w) master))) master fm lm
           \<and> companion_lines opt src (dirname_of (fst (get_image_datetime (w_fs w) master)))
                 videos fvs lvs"
    by (rule pair_sent_together [OF img vids run' go])
qed (rule pair_calls_into_folder [OF img vids run])

theorem pair_follows_master_witness:
  "is_image_file img_jpg \<and> list_all is_video_file [img_mov]
   \<and> (\<exists>r w'. process_pair strict_opts photos (img_jpg, [img_mov]) (world_of undated_pair_fs)
                 = Some (r, w')
         \<and> r = Inr () \<and> w_fs w' = undated_pair_fs \<and> w_calls w' = []
         \<and> w_log w' = [''Skipping (no date found): IMG.jpg (+ 1 video)''])
   \<and> (\<exists>r w' new. process_pair move_opts photos (img_jpg, [img_mov]) (world_of dated_pair_fs)
                 = Some (r, w')
         \<and> w_calls w' = new
         \<and> list_all (into_folder (Path ''/'' [''photos'', ''2021-03'']) [img_jpg, img_mov]) new)
   \<and> (\<exists>w' fm fvs lm lvs.
         process_pair move_opts photos (img_jpg, [img_mov]) (world_of dated_pair_fs)
           = Some (Inr (), w')
         \<and> length fvs = length [img_mov]
         \<and> list_all (\<lambda>f. parent f = Path ''/'' [''photos'', ''2021-03'']) (fm # fvs)
         \<and> w_calls w' = relocations move_opts (Path ''/'' [''photos'', ''2021-03''])
                           [img_jpg, img_mov] (fm # fvs)
         \<and> exec_calls dated_pair_fs
               (relocations move_opts (Path ''/'' [''photos'', ''2021-03''])
                  [img_jpg, img_mov] (fm # fvs)) = Inr (w_fs w')
         \<and> w_log w' = lm # lvs
         \<and> relocated_line move_opts photos ''2021-03'' '' (exif)'' img_jpg fm lm
         \<and> companion_lines move_opts photos ''2021-03'' [img_mov] fvs lvs
         \<and> w_calls w' =
             [Mkdir (Path ''/'' [''photos'', ''2021-03'']),
              Move img_jpg (Path ''/'' [''photos'', ''2021-03'', ''IMG.jpg'']),
              Mkdir (Path ''/'' [''photos'', ''2021-03'']),
              Move img_mov (Path ''/'' [''photos'', ''2021-03'', ''IMG.mov''])]
         \<and> w_log w' =
             [''Moved: IMG.jpg  ->  2021-03/IMG.jpg (exif)'',
              ''Moved: IMG.mov  ->  2021-03/IMG.mov (paired with photo)''])
   \<and> (\<exists>w' fm fvs lm lvs.
         process_pair sim_opts photos (img_jpg, [img_mov]) (world_of dated_pair_fs)
           = Some (Inr (), w')
         \<and> length fvs = length [img_mov]
         \<and> list_all (\<lambda>f. parent f = Path ''/'' [''photos'', ''2021-03'']) (fm # fvs)
         \<and> w_calls w' = [] \<and> w_fs w' = dated_pair_fs
         \<and> w_log w' = lm # lvs
         \<and> relocated_line sim_opts photos ''2021-03'' '' (exif)'' img_jpg fm lm
         \<and> companion_lines sim_opts photos ''2021-03'' [img_mov] fvs lvs
         \<and> w_log w' =
             [''Would move: IMG.jpg  ->  2021-03/IMG.jpg (exif)'',
              ''Would move: IMG.mov  ->  2021-03/IMG.mov (paired with photo)''])
   \<and> (dated_pair_fs(img_mov \<mapsto> undated_file)) img_jpg = dated_pair_fs img_jpg
   \<and> get_image_datetime (dated_pair_fs(img_mov \<mapsto> undated_file)) img_jpg
       = get_image_datetime dated_pair_fs img_jpg
   \<and> pair_live_photos [img_jpg, img_mov, other_jpg] = ([(img_jpg, [img_mov])], [other_jpg])
   \<and> (img_jpg, [img_mov]) \<in> set [(img_jpg, [img_mov])]
   \<and> img_jpg \<notin> set [other_jpg] \<and> list_all (\<lambda>v. v \<notin> set [other_jpg]) [img_mov]"
proof -
  have img: "is_image_file img_jpg" by code_simp
  have vids: "list_all is_video_file [img_mov]" by code_simp
  have fin1: "finite (dom (w_fs (world_of undated_pair_fs)))"
    by (simp add: world_of_def undated_pair_fs_def)
  have fin2: "finite (dom (w_fs (world_of dated_pair_fs)))"
    by (simp add: world_of_def dated_pair_fs_def)
  have d1: "fst (get_image_datetime (w_fs (world_of undated_pair_fs)) img_jpg) = None" by code_simp
  have gd: "get_image_datetime (w_fs (world_of dated_pair_fs)) img_jpg
      = (Some \<lparr>year = 2021, month = 3, day = 4, hour = 10, minute = 11, second = 0\<rparr>, Some ''exif'')"
    by code_simp
  then have d2: "fst (get_image_datetime (w_fs (world_of dated_pair_fs)) img_jpg)
      = Some \<lparr>year = 2021, month = 3, day = 4, hour = 10, minute = 11, second = 0\<rparr>" by simp
  have rel: "relative_to img_jpg photos = Inr (Path [] [''IMG.jpg''])" by code_simp
  have line: "''Skipping (no date found): '' @ str_path (Path [] [''IMG.jpg''])
        @ '' (+ '' @ str_nat (length [img_mov]) @ '' video)''
      = ''Skipping (no date found): IMG.jpg (+ 1 video)''" by code_simp
  have dir: "join photos (build_target_dirname
        \<lparr>year = 2021, month = 3, day = 4, hour = 10, minute = 11, second = 0\<rparr>)
      = Path ''/'' [''photos'', ''2021-03'']" by code_simp
  have dn: "dirname_of (Some \<lparr>year = 2021, month = 3, day = 4, hour = 10, minute = 11, second = 0\<rparr>)
      = ''2021-03''" by code_simp
  have td: "join photos ''2021-03'' = Path ''/'' [''photos'', ''2021-03'']" by code_simp
  have lab: "src_label_of (Some ''exif'') = '' (exif)''" by code_simp
  have strict: "\<not> include_unknown strict_opts" by (simp add: strict_opts_def)
  have w0: "w_fs (world_of fs) = fs" "w_calls (world_of fs) = []"
    "w_log (world_of fs) = []" for fs by (simp_all add: world_of_def)
  from process_pair_returns [OF fin1, of strict_opts photos "(img_jpg, [img_mov])"] obtain r1 w1
    where p1: "process_pair strict_opts photos (img_jpg, [img_mov]) (world_of undated_pair_fs)
      = Some (r1, w1)" by blast
  from pair_follows_master [OF img vids p1, THEN conjunct1] d1 strict rel
  have "r1 = Inr () \<and> w_fs w1 = undated_pair_fs \<and> w_calls w1 = []
         \<and> w_log w1 = [''Skipping (no date found): IMG.jpg (+ 1 video)'']"
    by (simp add: w0 line [simplified])
  with p1 have c1: "\<exists>r w'. process_pair strict_opts photos (img_jpg, [img_mov]) (world_of undated_pair_fs)
                 = Some (r, w')
         \<and> r = Inr () \<and> w_fs w' = undated_pair_fs \<and> w_calls w' = []
         \<and> w_log w' = [''Skipping (no date found): IMG.jpg (+ 1 video)'']" by blast
  from process_pair_returns [OF fin2, of move_opts photos "(img_jpg, [img_mov])"] obtain r2 w2
    where p2: "process_pair move_opts photos (img_jpg, [img_mov]) (world_of dated_pair_fs)
      = Some (r2, w2)" by blast
  from pair_follows_master [OF img vids p2, THEN conjunct1] d2
  have "list_all (into_folder (Path ''/'' [''photos'', ''2021-03'']) [img_jpg, img_mov]) (w_calls w2)"
    by (simp add: w0 dir)
  with p2 have c2: "\<exists>r w' new. process_pair move_opts photos (img_jpg, [img_mov]) (world_of dated_pair_fs)
                 = Some (r, w')
         \<and> w_calls w' = new
         \<and> list_all (into_folder (Path ''/'' [''photos'', ''2021-03'']) [img_jpg, img_mov]) new"
    by blast
  have obs2: "observe (process_pair move_opts photos (img_jpg, [img_mov]) (world_of dated_pair_fs))
      = Some (Inr (),
          [Mkdir (Path ''/'' [''photos'', ''2021-03'']),
           Move img_jpg (Path ''/'' [''photos'', ''2021-03'', ''IMG.jpg'']),
           Mkdir (Path ''/'' [''photos'', ''2021-03'']),
           Move img_mov (Path ''/'' [''photos'', ''2021-03'', ''IMG.mov''])],
          [''Moved: IMG.jpg  ->  2021-03/IMG.jpg (exif)'',
           ''Moved: IMG.mov  ->  2021-03/IMG.mov (paired with photo)''])"
    by code_simp
  from obs2 p2 have r2: "r2 = Inr ()"
    and calls2: "w_calls w2 =
          [Mkdir (Path ''/'' [''photos'', ''2021-03'']),
           Move img_jpg (Path ''/'' [''photos'', ''2021-03'', ''IMG.jpg'']),
           Mkdir (Path ''/'' [''photos'', ''2021-03'']),
           Move img_mov (Path ''/'' [''photos'', ''2021-03'', ''IMG.mov''])]"
    and log2: "w_log w2 =
          [''Moved: IMG.jpg  ->  2021-03/IMG.jpg (exif)'',
           ''Moved: IMG.mov  ->  2021-03/IMG.mov (paired with photo)'']"
    by (simp_all add: observe_def)
  have go2: "r2 = Inr ()
      \<and> \<not> (fst (get_image_datetime (w_fs (world_of dated_pair_fs)) img_jpg) = None
            \<and> \<not> include_unknown move_opts)"
    using r2 d2 by simp
  from pair_follows_master [OF img vids p2, THEN conjunct2, THEN conjunct1, rule_format, OF go2]
  obtain fm fvs lm lvs where
    s1: "length fvs = length [img_mov]"
    and s2: "list_all (\<lambda>f. parent f = Path ''/'' [''photos'', ''2021-03'']) (fm # fvs)"
    and s3: "w_calls w2 = relocations move_opts (Path ''/'' [''photos'', ''2021-03''])
                           [img_jpg, img_mov] (fm # fvs)"
    and s4: "exec_calls dated_pair_fs
               (relocations move_opts (Path ''/'' [''photos'', ''2021-03''])
                  [img_jpg, img_mov] (fm # fvs)) = Inr (w_fs w2)"
    and s5: "w_log w2 = lm # lvs"
    and s6: "relocated_line move_opts photos ''2021-03'' '' (exif)'' img_jpg fm lm"
    and s7: "companion_lines move_opts photos ''2021-03'' [img_mov] fvs lvs"
    unfolding w0 gd [unfolded w0] fst_conv snd_conv dn td lab append_Nil by blast
  from p2 r2 s1 s2 s3 s4 s5 s6 s7 calls2 log2
  have c5: "\<exists>w' fm fvs lm lvs.
         process_pair move_opts photos (img_jpg, [img_mov]) (world_of dated_pair_fs)
           = Some (Inr (), w')
         \<and> length fvs = length [img_mov]
         \<and> list_all (\<lambda>f. parent f = Path ''/'' [''photos'', ''2021-03'']) (fm # fvs)
         \<and> w_calls w' = relocations move_opts (Path ''/'' [''photos'', ''2021-03''])
                           [img_jpg, img_mov] (fm # fvs)
         \<and> exec_calls dated_pair_fs
               (relocations move_opts (Path ''/'' [''photos'', ''2021-03''])
                  [img_jpg, img_mov] (fm # fvs)) = Inr (w_fs w')
         \<and> w_log w' = lm # lvs
         \<and> relocated_line move_opts photos ''2021-03'' '' (exif)'' img_jpg fm lm
         \<and> companion_lines move_opts photos ''2021-03'' [img_mov] fvs lvs
         \<and> w_calls w' =
             [Mkdir (Path ''/'' [''photos'', ''2021-03'']),
              Move img_jpg (Path ''/'' [''photos'', ''2021-03'', ''IMG.jpg'']),
              Mkdir (Path ''/'' [''photos'', ''2021-03'']),
              Move img_mov (Path ''/'' [''photos'', ''2021-03'', ''IMG.mov''])]
         \<and> w_log w' =
             [''Moved: IMG.jpg  ->  2021-03/IMG.jpg (exif)'',
              ''Moved: IMG.mov  ->  2021-03/IMG.mov (paired with photo)'']"
    by blast
  from process_pair_returns [OF fin2, of sim_opts photos "(img_jpg, [img_mov])"] obtain r3 w3
    where p3: "process_pair sim_opts photos (img_jpg, [img_mov]) (world_of dated_pair_fs)
      = Some (r3, w3)" by blast
  have obs3: "observe (process_pair sim_opts photos (img_jpg, [img_mov]) (world_of dated_pair_fs))
      = Some (Inr (), [],
          [''Would move: IMG.jpg  ->  2021-03/IMG.jpg (exif)'',
           ''Would move: IMG.mov  ->  2021-03/IMG.mov (paired with photo)''])"
    by code_simp
  from obs3 p3 have r3: "r3 = Inr ()"
    and log3: "w_log w3 =
          [''Would move: IMG.jpg  ->  2021-03/IMG.jpg (exif)'',
           ''Would move: IMG.mov  ->  2021-03/IMG.mov (paired with photo)'']"
    by (simp_all add: observe_def)
  have dry3: "relocations sim_opts td ps fs = []" for td ps fs
    by (induction sim_opts td ps fs rule: relocations.induct)
       (simp_all add: relocation_def sim_opts_def)
  have go3: "r3 = Inr ()
      \<and> \<not> (fst (get_image_datetime (w_fs (world_of dated_pair_fs)) img_jpg) = None
            \<and> \<not> include_unknown sim_opts)"
    using r3 d2 by simp
  from pair_follows_master [OF img vids p3, THEN conjunct2, THEN conjunct1, rule_format, OF go3]
  obtain gm gvs km kvs where
    t1: "length gvs = length [img_mov]"
    and t2: "list_all (\<lambda>f. parent f = Path ''/'' [''photos'', ''2021-03'']) (gm # gvs)"
    and t3: "w_calls w3 = []"
    and t4: "Inr dated_pair_fs = (Inr (w_fs w3) :: error + filesys)"
    and t5: "w_log w3 = km # kvs"
    and t6: "relocated_line sim_opts photos ''2021-03'' '' (exif)'' img_jpg gm km"
    and t7: "companion_lines sim_opts photos ''2021-03'' [img_mov] gvs kvs"
    unfolding w0 gd [unfolded w0] fst_conv snd_conv dn td lab append_Nil dry3 exec_calls.simps by blast
  from t4 have t4': "w_fs w3 = dated_pair_fs" by simp
  from p3 r3 t1 t2 t3 t4' t5 t6 t7 log3
  have c6: "\<exists>w' fm fvs lm lvs.
         process_pair sim_opts photos (img_jpg, [img_mov]) (world_of dated_pair_fs)
           = Some (Inr (), w')
         \<and> length fvs = length [img_mov]
         \<and> list_all (\<lambda>f. parent f = Path ''/'' [''photos'', ''2021-03'']) (fm # fvs)
         \<and> w_calls w' = [] \<and> w_fs w' = dated_pair_fs
         \<and> w_log w' = lm # lvs
         \<and> relocated_line sim_opts photos ''2021-03'' '' (exif)'' img_jpg fm lm
         \<and> companion_lines sim_opts photos ''2021-03'' [img_mov] fvs lvs
         \<and> w_log w' =
             [''Would move: IMG.jpg  ->  2021-03/IMG.jpg (exif)'',
              ''Would move: IMG.mov  ->  2021-03/IMG.mov (paired with photo)'']"
    by blast
  have same: "(dated_pair_fs(img_mov \<mapsto> undated_file)) img_jpg = dated_pair_fs img_jpg"
    by (simp add: img_mov_def img_jpg_def)
  have wd: "w_fs (world_of dated_pair_fs) = dated_pair_fs" by (simp add: world_of_def)
  from pair_follows_master [OF img vids p2, THEN conjunct2, THEN conjunct2, THEN conjunct1] same
  have c3: "get_image_datetime (dated_pair_fs(img_mov \<mapsto> undated_file)) img_jpg
       = get_image_datetime dated_pair_fs img_jpg" unfolding wd by blast
  have grp: "pair_live_photos [img_jpg, img_mov, other_jpg] = ([(img_jpg, [img_mov])], [other_jpg])"
    by code_simp
  have mem: "(img_jpg, [img_mov]) \<in> set [(img_jpg, [img_mov])]" by simp
  from pair_follows_master [OF img vids p2, THEN conjunct2, THEN conjunct2, THEN conjunct2] grp mem
  have c4: "img_jpg \<notin> set [other_jpg] \<and> list_all (\<lambda>v. v \<notin> set [other_jpg]) [img_mov]"
    by blast
  from img vids c1 c2 c5 c6 same c3 grp mem c4 show ?thesis by blast
qed

subsection \<open>The lines of the log\<close>





















end
